theory Spec2Isabelle
  imports Main "HOL-Library.AList"
begin

section \<open>Strings as the middleware uses them\<close>

text \<open>
  The middleware inspects request paths with \<^verbatim>\<open>String.prototype.includes\<close> and
  \<^verbatim>\<open>split('/')\<close>. A JavaScript string is modelled as a \<^typ>\<open>string\<close>;
  \<open>startsWith s sub\<close> tests whether \<open>sub\<close> is a prefix of \<open>s\<close> and \<open>includesStr s sub\<close>
  whether \<open>sub\<close> occurs anywhere in \<open>s\<close>.
\<close>

fun startsWith :: "string \<Rightarrow> string \<Rightarrow> bool" where
  "startsWith s [] = True"
| "startsWith [] (c # cs) = False"
| "startsWith (x # xs) (c # cs) = (x = c \<and> startsWith xs cs)"

fun includesStr :: "string \<Rightarrow> string \<Rightarrow> bool" where
  "includesStr [] sub = (sub = [])"
| "includesStr (x # xs) sub = (startsWith (x # xs) sub \<or> includesStr xs sub)"

text \<open>\<^verbatim>\<open>s.split(sep)\<close> for a one-character separator: never empty, \<open>''''\<close> gives \<open>['''']\<close>.\<close>

fun split :: "char \<Rightarrow> string \<Rightarrow> string list" where
  "split sep [] = [[]]"
| "split sep (c # cs) =
     (if c = sep then [] # split sep cs
      else (case split sep cs of [] \<Rightarrow> [[c]] | w # ws \<Rightarrow> (c # w) # ws))"

text \<open>\<^verbatim>\<open>path.split('/').filter(s => s)\<close>: the non-empty segments of a path.\<close>

definition segments :: "string \<Rightarrow> string list" where
  "segments path = filter (\<lambda>s. s \<noteq> []) (split CHR ''/'' path)"

text \<open>\<^verbatim>\<open>xs[i]\<close> on an array: \<open>None\<close> stands for \<^verbatim>\<open>undefined\<close> out of range.\<close>

definition at_index :: "'a list \<Rightarrow> nat \<Rightarrow> 'a option" where
  "at_index xs i = (if i < length xs then Some (xs ! i) else None)"

section \<open>JSON values, requests and principals\<close>

text \<open>
  Request bodies, parameters and headers are untyped (\<^verbatim>\<open>any\<close>) in the source. They are
  modelled as JSON values; an object is the list of its own properties in enumeration order.
\<close>

datatype json =
    JUndefined
  | JNull
  | JBool bool
  | JNum int
  | JStr string
  | JArr "json list"
  | JObj "(string \<times> json) list"

text \<open>JavaScript truthiness, as tested by \<^verbatim>\<open>if (v)\<close>, \<^verbatim>\<open>!v\<close> and \<^verbatim>\<open>v || d\<close>.\<close>

fun truthy :: "json \<Rightarrow> bool" where
  "truthy JUndefined = False"
| "truthy JNull = False"
| "truthy (JBool b) = b"
| "truthy (JNum n) = (n \<noteq> 0)"
| "truthy (JStr s) = (s \<noteq> [])"
| "truthy (JArr xs) = True"
| "truthy (JObj kvs) = True"

text \<open>\<^verbatim>\<open>obj[key]\<close> on a property list: a missing key reads as \<^verbatim>\<open>undefined\<close>.\<close>

definition lookup :: "(string \<times> json) list \<Rightarrow> string \<Rightarrow> json" where
  "lookup kvs k = (case map_of kvs k of Some v \<Rightarrow> v | None \<Rightarrow> JUndefined)"

text \<open>\<^verbatim>\<open>v?.key\<close>: only an object has the properties the middleware asks for.\<close>

fun getProp :: "json \<Rightarrow> string \<Rightarrow> json" where
  "getProp (JObj kvs) k = lookup kvs k"
| "getProp v k = JUndefined"

text \<open>\<^verbatim>\<open>a || b\<close> on values.\<close>

definition js_or :: "json \<Rightarrow> json \<Rightarrow> json" where
  "js_or a b = (if truthy a then a else b)"

text \<open>The principal attached by the authentication middleware (\<^verbatim>\<open>req.user\<close>).\<close>

record user =
  userId :: string
  username :: string
  roles :: "string list"
  permissions :: "string list"

text \<open>The parts of an Express request that the policy pipeline reads.\<close>

record request =
  req_method :: string
  path :: string
  originalUrl :: string
  ip :: "string option"
  userAgent :: "string option"
  sessionID :: "string option"
  headers :: "(string \<times> json) list"
  body :: json
  params :: "(string \<times> json) list"
  query_params :: "(string \<times> json) list"
  req_user :: "user option"

section \<open>Request classification (auditLogger)\<close>

text \<open>
  \<^verbatim>\<open>getActionType\<close> reads \<^verbatim>\<open>methodMap[method] || 'ACCESS'\<close> on an object literal. The
  read finds the five keys of the literal and, failing those, the members that every
  object inherits from \<^verbatim>\<open>Object.prototype\<close>; an inherited member is a function (or, for
  \<^verbatim>\<open>__proto__\<close>, the prototype object), which is truthy and is returned as it is. The
  result is therefore either a string or such a member.
\<close>

datatype action = ActionName string | InheritedMember string

definition methodMap :: "(string \<times> string) list" where
  "methodMap = [(''GET'', ''SELECT''), (''POST'', ''INSERT''), (''PUT'', ''UPDATE''),
                (''PATCH'', ''UPDATE''), (''DELETE'', ''DELETE'')]"

definition objectPrototypeKeys :: "string list" where
  "objectPrototypeKeys =
     [''constructor'', ''__defineGetter__'', ''__defineSetter__'', ''hasOwnProperty'',
      ''__lookupGetter__'', ''__lookupSetter__'', ''isPrototypeOf'', ''propertyIsEnumerable'',
      ''toString'', ''valueOf'', ''__proto__'', ''toLocaleString'']"

definition getActionType :: "string \<Rightarrow> string \<Rightarrow> action" where
  "getActionType m p =
     (if includesStr p ''/auth/login'' then ActionName ''LOGIN''
      else if includesStr p ''/auth/logout'' then ActionName ''LOGOUT''
      else (case map_of methodMap m of
              Some a \<Rightarrow> ActionName a
            | None \<Rightarrow> (if m \<in> set objectPrototypeKeys then InheritedMember m
                       else ActionName ''ACCESS'')))"

text \<open>The request methods that the server's HTTP parser accepts (\<^verbatim>\<open>http.METHODS\<close>).\<close>

definition httpMethods :: "string list" where
  "httpMethods =
     [''ACL'', ''BIND'', ''CHECKOUT'', ''CONNECT'', ''COPY'', ''DELETE'', ''GET'', ''HEAD'',
      ''LINK'', ''LOCK'', ''M-SEARCH'', ''MERGE'', ''MKACTIVITY'', ''MKCALENDAR'', ''MKCOL'',
      ''MOVE'', ''NOTIFY'', ''OPTIONS'', ''PATCH'', ''POST'', ''PROPFIND'', ''PROPPATCH'',
      ''PURGE'', ''PUT'', ''QUERY'', ''REBIND'', ''REPORT'', ''SEARCH'', ''SOURCE'',
      ''SUBSCRIBE'', ''TRACE'', ''UNBIND'', ''UNLINK'', ''UNLOCK'', ''UNSUBSCRIBE'']"

definition getResourceType :: "string \<Rightarrow> string" where
  "getResourceType p =
     (if includesStr p ''/members'' then ''MEMBER''
      else if includesStr p ''/claims'' then ''CLAIM''
      else if includesStr p ''/providers'' then ''PROVIDER''
      else if includesStr p ''/users'' \<or> includesStr p ''/auth'' then ''USER''
      else if includesStr p ''/admin'' then ''SYSTEM''
      else ''UNKNOWN'')"

definition getModuleName :: "string \<Rightarrow> string" where
  "getModuleName p =
     (case at_index (segments p) 1 of
        Some s \<Rightarrow> (if s \<noteq> [] then s else ''api'')
      | None \<Rightarrow> ''api'')"

definition getFunctionName :: "string \<Rightarrow> string" where
  "getFunctionName p =
     (case at_index (segments p) 2 of
        Some s \<Rightarrow> (if s \<noteq> [] then s else ''index'')
      | None \<Rightarrow> ''index'')"

definition shouldAuditRequest :: "request \<Rightarrow> bool" where
  "shouldAuditRequest req =
     (if req_user req \<noteq> None then True
      else if includesStr (path req) ''/auth/'' then True
      else if includesStr (path req) ''/admin/'' then True
      else if req_method req \<in> set [''POST'', ''PUT'', ''PATCH'', ''DELETE''] then True
      else list_ex (\<lambda>endpoint. includesStr (path req) endpoint)
             [''/members/'', ''/claims/'', ''/providers/''])"

definition containsPHI :: "request \<Rightarrow> bool" where
  "containsPHI req =
     list_ex (\<lambda>endpoint. includesStr (path req) endpoint) [''/members'', ''/claims'']"

text \<open>
  \<^verbatim>\<open>getResourceId\<close> matches the path against
  \<^verbatim>\<open>/\/([0-9a-f-]{36}|\d+)(?:\/|$)/i\<close>: after the first slash that allows it, either
  exactly 36 hexadecimal-or-dash characters or a maximal run of digits, followed by a slash
  or the end of the path.
\<close>

definition isDigit :: "char \<Rightarrow> bool" where
  "isDigit c = (c \<in> set ''0123456789'')"

definition isHexDash :: "char \<Rightarrow> bool" where
  "isHexDash c = (c \<in> set ''0123456789abcdefABCDEF-'')"

definition atBoundary :: "string \<Rightarrow> bool" where
  "atBoundary rest = (case rest of [] \<Rightarrow> True | c # cs \<Rightarrow> c = CHR ''/'')"

definition matchIdAt :: "string \<Rightarrow> string option" where
  "matchIdAt rest =
     (if 36 \<le> length rest \<and> list_all isHexDash (take 36 rest) \<and> atBoundary (drop 36 rest)
      then Some (take 36 rest)
      else (let ds = takeWhile isDigit rest
            in if ds \<noteq> [] \<and> atBoundary (dropWhile isDigit rest) then Some ds else None))"

fun firstIdInPath :: "string \<Rightarrow> string option" where
  "firstIdInPath [] = None"
| "firstIdInPath (c # cs) =
     (if c = CHR ''/'' then (case matchIdAt cs of Some m \<Rightarrow> Some m | None \<Rightarrow> firstIdInPath cs)
      else firstIdInPath cs)"

definition getResourceId :: "request \<Rightarrow> string option" where
  "getResourceId req = firstIdInPath (path req)"

definition getPHIElements :: "string \<Rightarrow> json \<Rightarrow> string list" where
  "getPHIElements p b =
     (if includesStr p ''/members''
      then [''DEMOGRAPHIC'', ''CONTACT'', ''IDENTIFICATION'']
           @ (if truthy b \<and> (truthy (getProp b ''ssn'') \<or> truthy (getProp b ''social_security_number''))
              then [''SSN''] else [])
      else [])
     @ (if includesStr p ''/claims'' then [''MEDICAL'', ''FINANCIAL''] else [])"

definition getPHIType :: "string \<Rightarrow> string" where
  "getPHIType p =
     (if includesStr p ''/members'' then ''DEMOGRAPHIC''
      else if includesStr p ''/claims'' then ''MEDICAL''
      else ''GENERAL'')"

text \<open>
  The first place where \<^verbatim>\<open>/\/members\/([0-9a-f-]{36})/i\<close> matches. The flag makes the
  literal part match in either case as well.
\<close>

definition toLowerAscii :: "char \<Rightarrow> char" where
  "toLowerAscii c =
     (case map_of (zip ''ABCDEFGHIJKLMNOPQRSTUVWXYZ'' ''abcdefghijklmnopqrstuvwxyz'') c of
        Some l \<Rightarrow> l
      | None \<Rightarrow> c)"

fun memberIdInPath :: "string \<Rightarrow> string option" where
  "memberIdInPath [] = None"
| "memberIdInPath (c # cs) =
     (if map toLowerAscii (take 9 (c # cs)) = ''/members/''
         \<and> 36 \<le> length (drop 9 (c # cs)) \<and> list_all isHexDash (take 36 (drop 9 (c # cs)))
      then Some (take 36 (drop 9 (c # cs)))
      else memberIdInPath cs)"

definition getMemberIdFromRequest :: "request \<Rightarrow> json" where
  "getMemberIdFromRequest req =
     (if truthy (lookup (params req) ''memberId'') then lookup (params req) ''memberId''
      else if truthy (getProp (body req) ''memberId'') then getProp (body req) ''memberId''
      else if truthy (lookup (query_params req) ''memberId'')
        then lookup (query_params req) ''memberId''
      else if includesStr (path req) ''/members/''
        then (case memberIdInPath (path req) of Some m \<Rightarrow> JStr m | None \<Rightarrow> JUndefined)
      else JUndefined)"

section \<open>Sanitizers (errorHandler)\<close>

text \<open>Decimal rendering of an array index, as the key the spread gives it.\<close>

definition digitChar :: "nat \<Rightarrow> char" where
  "digitChar d = ''0123456789'' ! (d mod 10)"

function string_of_nat :: "nat \<Rightarrow> string" where
  "string_of_nat n =
     (if n < 10 then [digitChar n] else string_of_nat (n div 10) @ [digitChar (n mod 10)])"
  by pat_completeness auto
termination
  by (relation "measure id") auto

text \<open>
  The object spread \<^verbatim>\<open>{ ...data }\<close> copies the own enumerable properties of \<open>data\<close>:
  those of an object, the indexed elements of an array or string, none for other values.
\<close>

fun spread :: "json \<Rightarrow> (string \<times> json) list" where
  "spread (JObj kvs) = kvs"
| "spread (JArr xs) = zip (map string_of_nat [0..<length xs]) xs"
| "spread (JStr s) = zip (map string_of_nat [0..<length s]) (map (\<lambda>c. JStr [c]) s)"
| "spread v = []"

definition redacted :: json where
  "redacted = JStr ''[REDACTED]''"

text \<open>
  The body of both \<^verbatim>\<open>forEach\<close> loops:
  \<^verbatim>\<open>if (sanitized[field]) { sanitized[field] = '[REDACTED]'; }\<close>.
  The assignment finds the key present, since its value was truthy, and overwrites it in place.
\<close>

definition redactField :: "(string \<times> json) list \<Rightarrow> string \<Rightarrow> (string \<times> json) list" where
  "redactField sanitized field =
     (if truthy (lookup sanitized field) then AList.update field redacted sanitized
      else sanitized)"

definition sensitiveFields :: "string list" where
  "sensitiveFields = [''password'', ''ssn'', ''social_security_number'', ''token'', ''apiKey'']"

definition sensitiveHeaders :: "string list" where
  "sensitiveHeaders = [''authorization'', ''cookie'', ''x-api-key'']"

definition sanitizeRequestData :: "json \<Rightarrow> json" where
  "sanitizeRequestData data =
     (if \<not> truthy data then data
      else JObj (foldl redactField (spread data) sensitiveFields))"

definition sanitizeHeaders :: "(string \<times> json) list \<Rightarrow> (string \<times> json) list" where
  "sanitizeHeaders hs = foldl redactField hs sensitiveHeaders"

section \<open>The persistence store and the local log\<close>

text \<open>
  Every write goes through \<^verbatim>\<open>query\<close> of \<^verbatim>\<open>config/database\<close>, which awaits the
  connection pool and rethrows its failure after logging it. The pool is the external
  collaborator: an arbitrary function from the store's state and the write to an outcome
  (\<open>Inl\<close> a rejection with its message, \<open>Inr\<close> success) and the store's next state. The
  local diagnostic channel (\<^verbatim>\<open>logger\<close>) is the list of lines written so far; the timing
  of a query (the slow-query warning) is not modelled.
\<close>

text \<open>
  The error code column holds \<^verbatim>\<open>error.code || statusCode.toString()\<close>: the code of the
  error, or the text that the number's own \<^verbatim>\<open>toString\<close> gives for the status.
\<close>

datatype code_text = CodeText string | StatusText int

record system_error_row =
  error_type :: string
  severity_level :: string
  error_code :: code_text
  error_message :: string
  server_name :: string
  application_component :: string
  err_user_id :: "string option"
  request_id :: json
  stack_trace :: "string option"
  rd_method :: string
  rd_url :: string
  rd_body :: json
  rd_params :: "(string \<times> json) list"
  rd_query :: "(string \<times> json) list"
  rd_headers :: "(string \<times> json) list"
  environment :: string

record audit_row =
  au_user_id :: "string option"
  au_username :: "string option"
  client_ip :: string
  user_agent :: "string option"
  action_type :: action
  resource_type :: string
  resource_id :: "string option"
  application_name :: string
  au_module_name :: string
  au_function_name :: string
  contains_phi :: bool
  hipaa_compliant :: bool
  business_justification :: json

record phi_row =
  phi_user_id :: string
  phi_username :: string
  user_role :: string
  member_id :: json
  phi_type :: string
  phi_elements :: "string list"
  access_reason :: json
  access_method :: string
  minimum_necessary :: bool
  source_system :: string
  phi_client_ip :: "string option"
  session_id :: string

datatype db_write =
    InsertSystemError system_error_row
  | InsertAuditLog audit_row
  | InsertPhiAccess phi_row
  | UpdateLastActivity string

type_synonym 's pool = "'s \<Rightarrow> db_write \<Rightarrow> (string + unit) \<times> 's"

type_synonym 's world = "'s \<times> string list"

definition logger_error :: "string \<Rightarrow> 's world \<Rightarrow> 's world" where
  "logger_error line st = (fst st, snd st @ [line])"

definition query :: "'s pool \<Rightarrow> db_write \<Rightarrow> 's world \<Rightarrow> (string + unit) \<times> 's world" where
  "query pool w st =
     (case pool (fst st) w of
        (Inr u, s') \<Rightarrow> (Inr u, (s', snd st))
      | (Inl e, s') \<Rightarrow> (Inl e, logger_error (''Database query error: '' @ e) (s', snd st)))"

section \<open>Fail-safe error handler (errorHandler)\<close>

text \<open>
  An entry of \<^verbatim>\<open>error.details\<close>, as a schema-validation error carries them: null or
  undefined, or an item whose message is a string or is missing. The handler reads
  \<^verbatim>\<open>detail.message\<close>, which raises a TypeError on a null or undefined entry.
\<close>

datatype detail = Nullish | Detail "string option"

record app_error =
  name :: string
  message :: string
  stack :: "string option"
  statusCode :: "int option"
  code :: "string option"
  details :: "detail list option"

record env =
  NODE_ENV :: "string option"
  SERVER_NAME :: "string option"

record error_details =
  det_message :: string
  det_stack :: "string option"
  det_url :: string
  det_method :: string
  det_ip :: "string option"
  det_userAgent :: "string option"
  det_body :: json
  det_params :: "(string \<times> json) list"
  det_query :: "(string \<times> json) list"
  det_statusCode :: int
  det_timestamp :: string

text \<open>
  The JSON body \<^verbatim>\<open>{ error: { status, message, timestamp, stack?, details?, requestId? } }\<close>
  and the status it is sent with. \<open>res_stack\<close> is \<open>None\<close> when the key is never assigned.
\<close>

record error_body =
  res_status :: int
  res_message :: string
  res_timestamp :: string
  res_stack :: "string option option"
  res_details :: "error_details option"
  res_requestId :: "json option"

record error_response =
  sent_status :: int
  sent_body :: error_body

definition classifyErrorType :: "app_error \<Rightarrow> string" where
  "classifyErrorType error =
     (if name error = ''ValidationError'' then ''VALIDATION_ERROR''
      else if name error = ''UnauthorizedError'' then ''AUTHENTICATION_ERROR''
      else if (case code error of Some c \<Rightarrow> startsWith c ''23'' | None \<Rightarrow> False)
        then ''DATABASE_ERROR''
      else if (case statusCode error of Some c \<Rightarrow> c \<noteq> 0 \<and> 400 \<le> c \<and> c < 500 | None \<Rightarrow> False)
        then ''CLIENT_ERROR''
      else ''SYSTEM_ERROR'')"

definition getSeverityLevel :: "int \<Rightarrow> string" where
  "getSeverityLevel sc =
     (if 500 \<le> sc then ''HIGH'' else if 400 \<le> sc then ''MEDIUM'' else ''LOW'')"

definition getComponentFromPath :: "string \<Rightarrow> string" where
  "getComponentFromPath p =
     (if 2 \<le> length (segments p) then segments p ! 1 else ''unknown'')"

definition join :: "string \<Rightarrow> string list \<Rightarrow> string" where
  "join sep xs = (case xs of [] \<Rightarrow> [] | y # ys \<Rightarrow> foldl (\<lambda>acc x. acc @ sep @ x) y ys)"

text \<open>
  \<open>details\<close> is \<open>Some\<close> when \<^verbatim>\<open>error.details\<close> is an array. \<^verbatim>\<open>join\<close> renders a missing
  message as the empty string. \<open>Inl\<close> is the TypeError of reading the message of a null or
  undefined entry.
\<close>

definition detailMessage :: "detail \<Rightarrow> string" where
  "detailMessage d = (case d of Detail (Some m) \<Rightarrow> m | _ \<Rightarrow> [])"

definition formatValidationError :: "app_error \<Rightarrow> string + string" where
  "formatValidationError error =
     (case details error of
        Some ds \<Rightarrow> (if Nullish \<in> set ds then Inl ''TypeError''
                    else Inr (join ''; '' (map detailMessage ds)))
      | None \<Rightarrow> Inr (if message error \<noteq> [] then message error else ''Validation failed''))"

definition str_or :: "string option \<Rightarrow> string \<Rightarrow> string" where
  "str_or a b = (case a of Some s \<Rightarrow> (if s \<noteq> [] then s else b) | None \<Rightarrow> b)"

text \<open>The parameter array of the \<^verbatim>\<open>INSERT INTO system_errors\<close>.\<close>

definition systemErrorRow :: "env \<Rightarrow> app_error \<Rightarrow> request \<Rightarrow> int \<Rightarrow> system_error_row" where
  "systemErrorRow ev error req sc =
     \<lparr> error_type = classifyErrorType error,
       severity_level = getSeverityLevel sc,
       error_code = (case code error of
                       Some c \<Rightarrow> (if c \<noteq> [] then CodeText c else StatusText sc)
                     | None \<Rightarrow> StatusText sc),
       error_message = message error,
       server_name = str_or (SERVER_NAME ev) ''healthcare-api'',
       application_component = getComponentFromPath (path req),
       err_user_id = map_option userId (req_user req),
       request_id = js_or (lookup (headers req) ''x-request-id'') JNull,
       stack_trace = stack error,
       rd_method = req_method req,
       rd_url = originalUrl req,
       rd_body = sanitizeRequestData (body req),
       rd_params = params req,
       rd_query = query_params req,
       rd_headers = sanitizeHeaders (headers req),
       environment = str_or (NODE_ENV ev) ''development'' \<rparr>"

definition logErrorToDatabase ::
  "'s pool \<Rightarrow> env \<Rightarrow> app_error \<Rightarrow> request \<Rightarrow> int \<Rightarrow> 's world \<Rightarrow> (string + unit) \<times> 's world" where
  "logErrorToDatabase pool ev error req sc st =
     (case query pool (InsertSystemError (systemErrorRow ev error req sc)) st of
        (Inr u, st') \<Rightarrow> (Inr (), st')
      | (Inl dbError, st') \<Rightarrow>
          (Inr (), logger_error (''Database error logging failed: '' @ dbError) st'))"

text \<open>
  The response object is the framework's: \<^verbatim>\<open>res.status(statusCode).json(response)\<close> is
  the parameter \<open>send\<close>, which is given the status and the body and answers \<open>None\<close> when
  the response went out and \<open>Some e\<close> when the call raises \<open>e\<close> (as it does once the
  headers have been sent, or for a status that is no HTTP status). The call stands outside
  every \<^verbatim>\<open>try\<close> of the handler.
\<close>

type_synonym sender = "int \<Rightarrow> error_body \<Rightarrow> string option"

text \<open>
  The chain under \<^verbatim>\<open>// Handle specific error types\<close>: the status and message the handler
  goes on with, given those it started with. \<open>Inl\<close> is the TypeError out of
  \<^verbatim>\<open>formatValidationError\<close>.
\<close>

definition handleSpecificErrorTypes :: "app_error \<Rightarrow> int \<Rightarrow> string \<Rightarrow> string + int \<times> string" where
  "handleSpecificErrorTypes error statusCode0 message0 =
     (if name error = ''ValidationError''
        then (case formatValidationError error of
                Inl e \<Rightarrow> Inl e
              | Inr m \<Rightarrow> Inr (400, m))
      else if name error = ''UnauthorizedError'' then Inr (401, ''Invalid credentials'')
      else if name error = ''CastError'' then Inr (400, ''Invalid ID format'')
      else if code error = Some ''23505'' then Inr (409, ''Resource already exists'')
      else if code error = Some ''23503''
        then Inr (400, ''Invalid reference to related resource'')
      else if code error = Some ''23502'' then Inr (400, ''Required field is missing'')
      else Inr (statusCode0, message0))"

text \<open>
  The handler proper. The two readings of the clock (\<^verbatim>\<open>new Date().toISOString()\<close>) are
  the parameters \<open>t_logged\<close> and \<open>t_sent\<close>. The result is \<open>Inl\<close> if the handler raises and
  \<open>Inr\<close> the response it has sent.
\<close>

definition errorHandler ::
  "'s pool \<Rightarrow> sender \<Rightarrow> env \<Rightarrow> string \<Rightarrow> string \<Rightarrow> app_error \<Rightarrow> request \<Rightarrow> 's world
     \<Rightarrow> (string + error_response) \<times> 's world" where
  "errorHandler pool send ev t_logged t_sent error req st =
     (let statusCode0 = (case statusCode error of Some c \<Rightarrow> c | None \<Rightarrow> 500);
          message0 = message error;
          errorDetails = \<lparr> det_message = message error,
                           det_stack = stack error,
                           det_url = originalUrl req,
                           det_method = req_method req,
                           det_ip = ip req,
                           det_userAgent = userAgent req,
                           det_body = body req,
                           det_params = params req,
                           det_query = query_params req,
                           det_statusCode = statusCode0,
                           det_timestamp = t_logged \<rparr>;
          st1 = logger_error ''API Error:'' st;
          st2 = (case logErrorToDatabase pool ev error req statusCode0 st1 of
                   (Inr u, st') \<Rightarrow> st'
                 | (Inl dbError, st') \<Rightarrow>
                     logger_error (''Failed to log error to database: '' @ dbError) st')
      in case handleSpecificErrorTypes error statusCode0 message0 of
           Inl e \<Rightarrow> (Inl e, st2)
         | Inr (statusCode1, message1) \<Rightarrow>
             (let message2 = (if NODE_ENV ev = Some ''production'' \<and> statusCode1 = 500
                              then ''Internal server error occurred'' else message1);
                  dev = (NODE_ENV ev = Some ''development'');
                  requestId = lookup (headers req) ''x-request-id'';
                  response = \<lparr> res_status = statusCode1,
                               res_message = message2,
                               res_timestamp = t_sent,
                               res_stack = (if dev then Some (stack error) else None),
                               res_details = (if dev then Some errorDetails else None),
                               res_requestId =
                                 (if truthy requestId then Some requestId else None) \<rparr>
              in case send statusCode1 response of
                   Some e \<Rightarrow> (Inl e, st2)
                 | None \<Rightarrow> (Inr \<lparr> sent_status = statusCode1, sent_body = response \<rparr>, st2)))"

section \<open>Audit and PHI recorder (auditLogger)\<close>

text \<open>
  \<^verbatim>\<open>req.ip || req.connection.remoteAddress || 'unknown'\<close>; the connection's remote address
  is the parameter \<open>remoteAddress\<close>. The response metadata handed to
  \<^verbatim>\<open>logAuditEvent\<close> (duration, status, body) is not written to the row and is left out.
\<close>

definition auditRow :: "string option \<Rightarrow> request \<Rightarrow> audit_row" where
  "auditRow remoteAddress req =
     \<lparr> au_user_id = map_option userId (req_user req),
       au_username = map_option username (req_user req),
       client_ip = str_or (ip req) (str_or remoteAddress ''unknown''),
       user_agent = userAgent req,
       action_type = getActionType (req_method req) (path req),
       resource_type = getResourceType (path req),
       resource_id = getResourceId req,
       application_name = ''healthcare-web-app'',
       au_module_name = getModuleName (path req),
       au_function_name = getFunctionName (path req),
       contains_phi = containsPHI req,
       hipaa_compliant = True,
       business_justification =
         js_or (getProp (body req) ''businessJustification'')
               (JStr (req_method req @ '' request to '' @ path req)) \<rparr>"

definition logAuditEvent ::
  "'s pool \<Rightarrow> string option \<Rightarrow> request \<Rightarrow> 's world \<Rightarrow> (string + unit) \<times> 's world" where
  "logAuditEvent pool remoteAddress req st =
     (case query pool (InsertAuditLog (auditRow remoteAddress req)) st of
        (Inr u, st') \<Rightarrow> (Inr (), st')
      | (Inl e, st') \<Rightarrow> (Inr (), logger_error (''Failed to insert audit log: '' @ e) st'))"

definition phiRow :: "user \<Rightarrow> request \<Rightarrow> phi_row" where
  "phiRow u req =
     \<lparr> phi_user_id = userId u,
       phi_username = username u,
       user_role = str_or (at_index (roles u) 0) ''User'',
       member_id = getMemberIdFromRequest req,
       phi_type = getPHIType (path req),
       phi_elements = getPHIElements (path req) (body req),
       access_reason = js_or (getProp (body req) ''accessReason'') (JStr ''API access''),
       access_method = ''API'',
       minimum_necessary = True,
       source_system = ''healthcare-web-app'',
       phi_client_ip = ip req,
       session_id = str_or (sessionID req) ''web-session'' \<rparr>"

definition logPHIAccess ::
  "'s pool \<Rightarrow> request \<Rightarrow> 's world \<Rightarrow> (string + unit) \<times> 's world" where
  "logPHIAccess pool req st =
     (case req_user req of
        None \<Rightarrow> (Inr (), st)
      | Some u \<Rightarrow>
          (case query pool (InsertPhiAccess (phiRow u req)) st of
             (Inr v, st') \<Rightarrow> (Inr (), st')
           | (Inl e, st') \<Rightarrow> (Inr (), logger_error (''Failed to log PHI access: '' @ e) st')))"

text \<open>
  The callback that \<^verbatim>\<open>auditLogger\<close> registers on the response's \<^verbatim>\<open>finish\<close> event: the
  whole body sits in one \<^verbatim>\<open>try\<close>, so a failure of the audit write would skip the PHI
  write and end in the \<^verbatim>\<open>catch\<close>.
\<close>

definition onFinish ::
  "'s pool \<Rightarrow> string option \<Rightarrow> request \<Rightarrow> 's world \<Rightarrow> (string + unit) \<times> 's world" where
  "onFinish pool remoteAddress req st =
     (case (if shouldAuditRequest req then logAuditEvent pool remoteAddress req st
            else (Inr (), st)) of
        (Inl e, st1) \<Rightarrow> (Inr (), logger_error (''Audit logging failed: '' @ e) st1)
      | (Inr u, st1) \<Rightarrow>
          (case (if containsPHI req then logPHIAccess pool req st1 else (Inr (), st1)) of
             (Inl e, st2) \<Rightarrow> (Inr (), logger_error (''Audit logging failed: '' @ e) st2)
           | (Inr v, st2) \<Rightarrow> (Inr (), st2)))"

section \<open>Principal resolver (authenticateToken)\<close>

text \<open>
  A row of the identity query: \<^verbatim>\<open>array_agg\<close> may hold nulls, which the middleware
  filters out.
\<close>

record user_row =
  row_user_id :: string
  row_username :: string
  row_roles :: "string option list"
  row_permissions :: "string option list"

text \<open>
  What the middleware does with the request: answer it with a status and an error message
  (\<^verbatim>\<open>res.status(c).json({ error: m })\<close>), or pass control on (\<^verbatim>\<open>next()\<close>).
\<close>

datatype auth_outcome = Respond int string | Next

text \<open>
  \<^verbatim>\<open>authHeader && authHeader.split(' ')[1]\<close>, the authorization header being a string
  when present.
\<close>

definition bearerToken :: "request \<Rightarrow> string option" where
  "bearerToken req =
     (case lookup (headers req) ''authorization'' of
        JStr h \<Rightarrow> (if h = [] then None else at_index (split CHR '' '' h) 1)
      | _ \<Rightarrow> None)"

text \<open>
  \<open>verify\<close> is \<^verbatim>\<open>jwt.verify\<close> with the configured secret, giving the \<^verbatim>\<open>userId\<close> claim of
  the payload or raising; \<open>select_user\<close> is the identity query, giving the active rows for
  that identity or raising. Both are external. The result carries the outcome, the request
  with \<^verbatim>\<open>req.user\<close> as the middleware left it, and the store and log.
\<close>

definition authenticateToken ::
  "(string \<Rightarrow> string + 'uid) \<Rightarrow> ('s \<Rightarrow> 'uid \<Rightarrow> string + user_row list) \<Rightarrow> 's pool
     \<Rightarrow> request \<Rightarrow> 's world \<Rightarrow> auth_outcome \<times> request \<times> 's world" where
  "authenticateToken verify select_user pool req st =
     (let failed = (\<lambda>e r w. (Respond 403 ''Invalid token'', r,
                     logger_error ''AUTHENTICATION_FAILED''
                       (logger_error (''Token verification failed: '' @ e) w)))
      in case bearerToken req of
           None \<Rightarrow> (Respond 401 ''Access token required'', req, st)
         | Some token \<Rightarrow>
             (if token = [] then (Respond 401 ''Access token required'', req, st)
              else case verify token of
                Inl e \<Rightarrow> failed e req st
              | Inr decodedUserId \<Rightarrow>
                  (case select_user (fst st) decodedUserId of
                     Inl e \<Rightarrow> failed e req (logger_error (''Database query error: '' @ e) st)
                   | Inr rows \<Rightarrow>
                       (case rows of
                          [] \<Rightarrow> (Respond 401 ''Invalid or expired token'', req, st)
                        | row # rest \<Rightarrow>
                            (let req' = req\<lparr> req_user := Some
                                   \<lparr> userId = row_user_id row,
                                     username = row_username row,
                                     roles = List.map_filter id (row_roles row),
                                     permissions = List.map_filter id (row_permissions row) \<rparr> \<rparr>
                             in case query pool (UpdateLastActivity (row_user_id row)) st of
                                  (Inl e, st') \<Rightarrow> failed e req' st'
                                | (Inr u, st') \<Rightarrow> (Next, req', st'))))))"

section \<open>Observations and sample inputs\<close>

text \<open>The response a handler run ends with, and what a write says about severity and kind.\<close>

definition responseOf :: "(string + error_response) \<times> 'w \<Rightarrow> error_response option" where
  "responseOf out = (case fst out of Inr r \<Rightarrow> Some r | Inl e \<Rightarrow> None)"

fun severityOf :: "db_write \<Rightarrow> string option" where
  "severityOf (InsertSystemError row) = Some (severity_level row)"
| "severityOf w = None"

fun isPhiWrite :: "db_write \<Rightarrow> bool" where
  "isPhiWrite (InsertPhiAccess row) = True"
| "isPhiWrite w = False"

fun isAuditWrite :: "db_write \<Rightarrow> bool" where
  "isAuditWrite (InsertAuditLog row) = True"
| "isAuditWrite w = False"

text \<open>
  Two stores: one that accepts every write and keeps it, in order, and one that rejects
  every write with the same message.
\<close>

definition recording_pool :: "(db_write list) pool" where
  "recording_pool s w = (Inr (), s @ [w])"

definition failing_pool :: "string \<Rightarrow> 's pool" where
  "failing_pool e s w = (Inl e, s)"

definition clerk :: user where
  "clerk = \<lparr> userId = ''u-17'', username = ''clerk'', roles = [''Clerk''], permissions = [] \<rparr>"

definition sample_request :: "string \<Rightarrow> string \<Rightarrow> user option \<Rightarrow> request" where
  "sample_request m p u =
     \<lparr> req_method = m, path = p, originalUrl = p, ip = Some ''10.0.0.7'', userAgent = None,
       sessionID = None, headers = [], body = JObj [], params = [], query_params = [],
       req_user = u \<rparr>"

definition bearer_request :: request where
  "bearer_request = (sample_request ''GET'' ''/api/plans'' None)
     \<lparr> headers := [(''authorization'', JStr ''Bearer abc.def.ghi'')] \<rparr>"

definition sample_row :: user_row where
  "sample_row = \<lparr> row_user_id = ''u-17'', row_username = ''clerk'',
     row_roles = [Some ''Clerk'', None], row_permissions = [None] \<rparr>"

definition sample_validation_error :: app_error where
  "sample_validation_error = \<lparr> name = ''ValidationError'', message = ''ssn is required'',
     stack = None, statusCode = None, code = None, details = None \<rparr>"

definition sample_unique_violation :: app_error where
  "sample_unique_violation = \<lparr> name = ''error'',
     message = ''duplicate key value violates unique constraint'',
     stack = None, statusCode = None, code = Some ''23505'', details = None \<rparr>"

definition sample_upstream_error :: "int option \<Rightarrow> app_error" where
  "sample_upstream_error sc = \<lparr> name = ''Error'',
     message = ''connect ECONNREFUSED 10.0.0.5:5432'',
     stack = Some ''at Pool.connect'', statusCode = sc, code = None, details = None \<rparr>"


text \<open>
  A response object that raises once the headers have been sent and for a status outside
  100 to 999, and sends otherwise; and one that sends whatever it is given.
\<close>

definition strict_send :: "bool \<Rightarrow> sender" where
  "strict_send headersSent sc b =
     (if headersSent then Some ''ERR_HTTP_HEADERS_SENT''
      else if sc < 100 \<or> 999 < sc then Some ''ERR_HTTP_INVALID_STATUS_CODE''
      else None)"

definition lenient_send :: sender where
  "lenient_send sc b = None"

definition production :: env where
  "production = \<lparr> NODE_ENV = Some ''production'', SERVER_NAME = None \<rparr>"

definition development :: env where
  "development = \<lparr> NODE_ENV = Some ''development'', SERVER_NAME = None \<rparr>"

definition staging :: env where
  "staging = \<lparr> NODE_ENV = Some ''staging'', SERVER_NAME = None \<rparr>"

text \<open>
  What redaction makes of one property: the key stays, and the value becomes the marker
  when the key is one of \<open>names\<close> and the value is truthy. A property list is \<open>settled\<close>
  at a key when redacting that key would change nothing.
\<close>

definition redactEntry :: "string list \<Rightarrow> string \<times> json \<Rightarrow> string \<times> json" where
  "redactEntry names kv =
     (if fst kv \<in> set names \<and> truthy (snd kv) then (fst kv, redacted) else kv)"

definition settled :: "(string \<times> json) list \<Rightarrow> string \<Rightarrow> bool" where
  "settled kvs f = (truthy (lookup kvs f) \<longrightarrow> map_of kvs f = Some redacted)"

section \<open>Facts about substring search\<close>

lemma startsWith_iff: "startsWith s sub \<longleftrightarrow> (\<exists>ss. s = sub @ ss)"
  by (induction s sub rule: startsWith.induct) auto

lemma includes_iff: "includesStr s sub \<longleftrightarrow> (\<exists>ps ss. s = ps @ sub @ ss)"
proof (induction s)
  case Nil
  then show ?case by auto
next
  case (Cons x xs)
  show ?case
  proof
    assume "includesStr (x # xs) sub"
    then consider "startsWith (x # xs) sub" | "includesStr xs sub" by auto
    then show "\<exists>ps ss. x # xs = ps @ sub @ ss"
    proof cases
      case 1
      then obtain ss where "x # xs = sub @ ss" by (auto simp: startsWith_iff)
      then have "x # xs = [] @ sub @ ss" by simp
      then show ?thesis by blast
    next
      case 2
      then obtain ps ss where "xs = ps @ sub @ ss" using Cons.IH by auto
      then have "x # xs = (x # ps) @ sub @ ss" by simp
      then show ?thesis by blast
    qed
  next
    assume "\<exists>ps ss. x # xs = ps @ sub @ ss"
    then obtain ps ss where eq: "x # xs = ps @ sub @ ss" by auto
    show "includesStr (x # xs) sub"
    proof (cases ps)
      case Nil
      with eq have "startsWith (x # xs) sub" by (auto simp: startsWith_iff)
      then show ?thesis by simp
    next
      case (Cons p ps')
      with eq have "xs = ps' @ sub @ ss" by simp
      then have "includesStr xs sub" using Cons.IH by auto
      then show ?thesis by simp
    qed
  qed
qed

lemma includes_prefix_of_needle: "includesStr s (a @ b) \<Longrightarrow> includesStr s a"
proof -
  assume "includesStr s (a @ b)"
  then obtain ps ss where "s = ps @ (a @ b) @ ss" by (auto simp: includes_iff)
  then have "s = ps @ a @ (b @ ss)" by simp
  then show ?thesis unfolding includes_iff by blast
qed

lemma split_nonempty: "split sep s \<noteq> []"
  by (induction s) (auto split: list.splits)

lemma split_hd_prefix: "\<exists>b. s = hd (split sep s) @ b"
proof (induction s)
  case Nil
  show ?case by simp
next
  case (Cons c cs)
  then obtain b where b: "cs = hd (split sep cs) @ b" by blast
  show ?case
  proof (cases "c = sep")
    case True
    then show ?thesis by simp
  next
    case False
    obtain w ws where w: "split sep cs = w # ws"
      using split_nonempty [of sep cs] by (cases "split sep cs") auto
    with b have "c # cs = (c # w) @ b" by simp
    with False w show ?thesis by auto
  qed
qed

lemma split_tail_preceded:
  "w \<in> set (tl (split sep s)) \<Longrightarrow> \<exists>a b. s = a @ sep # w @ b"
proof (induction s)
  case Nil
  then show ?case by simp
next
  case (Cons c cs)
  obtain w0 ws where w0: "split sep cs = w0 # ws"
    using split_nonempty [of sep cs] by (cases "split sep cs") auto
  show ?case
  proof (cases "c = sep")
    case True
    with Cons.prems w0 have "w = w0 \<or> w \<in> set (tl (split sep cs))" by auto
    then show ?thesis
    proof
      assume "w = w0"
      moreover obtain b where "cs = hd (split sep cs) @ b" using split_hd_prefix by blast
      ultimately have "c # cs = [] @ sep # w @ b" using True w0 by simp
      then show ?thesis by blast
    next
      assume "w \<in> set (tl (split sep cs))"
      then obtain a b where "cs = a @ sep # w @ b" using Cons.IH by blast
      then have "c # cs = (c # a) @ sep # w @ b" by simp
      then show ?thesis by blast
    qed
  next
    case False
    with Cons.prems w0 have "w \<in> set (tl (split sep cs))" by simp
    then obtain a b where "cs = a @ sep # w @ b" using Cons.IH by blast
    then have "c # cs = (c # a) @ sep # w @ b" by simp
    then show ?thesis by blast
  qed
qed

lemma set_tl_filter: "set (tl (filter P xs)) \<subseteq> set (tl xs)"
proof (induction xs)
  case Nil
  show ?case by simp
next
  case (Cons x xs)
  have "set (tl (filter P xs)) \<subseteq> set (filter P xs)"
    by (cases "filter P xs") auto
  then have "set (tl (filter P xs)) \<subseteq> set xs" by auto
  then show ?case by auto
qed

lemma nth_Suc_in_tl: "Suc n < length xs \<Longrightarrow> xs ! Suc n \<in> set (tl xs)"
  by (cases xs) simp_all

lemma later_segment_includes:
  assumes "at_index (segments p) (Suc n) = Some w"
  shows "includesStr p (CHR ''/'' # w)"
proof -
  from assms have l: "Suc n < length (segments p)"
    by (simp add: at_index_def split: if_splits)
  with assms have "segments p ! Suc n = w"
    by (simp add: at_index_def)
  with nth_Suc_in_tl [OF l] have "w \<in> set (tl (segments p))" by simp
  then have "w \<in> set (tl (filter (\<lambda>s. s \<noteq> []) (split CHR ''/'' p)))"
    by (simp only: segments_def)
  then have "w \<in> set (tl (split CHR ''/'' p))"
    by (rule subsetD [OF set_tl_filter])
  then have "\<exists>a b. p = a @ CHR ''/'' # w @ b"
    by (rule split_tail_preceded)
  then obtain a b where "p = a @ CHR ''/'' # w @ b" by (elim exE)
  then have "p = a @ (CHR ''/'' # w) @ b" by simp
  then have "\<exists>ps ss. p = ps @ (CHR ''/'' # w) @ ss" by (intro exI)
  then show ?thesis by (simp only: includes_iff)
qed

lemma getModuleName_includes:
  assumes "getModuleName p = w" and "w \<noteq> ''api''"
  shows "includesStr p (CHR ''/'' # w)"
proof (cases "at_index (segments p) 1")
  case None
  with assms show ?thesis by (simp add: getModuleName_def)
next
  case (Some s)
  with assms have "s = w" by (simp add: getModuleName_def split: if_splits)
  with Some have "at_index (segments p) (Suc 0) = Some w" by simp
  then show ?thesis by (rule later_segment_includes)
qed

section \<open>Request classification\<close>

lemma httpMethods_not_inherited: "\<forall>m \<in> set httpMethods. m \<notin> set objectPrototypeKeys"
  by (simp add: httpMethods_def objectPrototypeKeys_def)

text \<open>
  C9. The action type of a request: a path that contains \<^verbatim>\<open>/auth/login\<close> is a LOGIN
  whatever the method; failing that, a path that contains \<^verbatim>\<open>/auth/logout\<close> is a LOGOUT;
  otherwise GET is SELECT, POST is INSERT, PUT and PATCH are UPDATE, DELETE is DELETE and
  every other method is ACCESS. A method here is one that the server's parser accepts or,
  more generally, any string that does not name an inherited member of the lookup table.
\<close>

theorem getActionType_classification:
  "(includesStr p ''/auth/login'' \<longrightarrow> getActionType m p = ActionName ''LOGIN'')
   \<and> (\<not> includesStr p ''/auth/login'' \<and> includesStr p ''/auth/logout''
        \<longrightarrow> getActionType m p = ActionName ''LOGOUT'')
   \<and> (\<not> includesStr p ''/auth/login'' \<and> \<not> includesStr p ''/auth/logout'' \<longrightarrow>
        (m = ''GET'' \<longrightarrow> getActionType m p = ActionName ''SELECT'')
      \<and> (m = ''POST'' \<longrightarrow> getActionType m p = ActionName ''INSERT'')
      \<and> (m = ''PUT'' \<or> m = ''PATCH'' \<longrightarrow> getActionType m p = ActionName ''UPDATE'')
      \<and> (m = ''DELETE'' \<longrightarrow> getActionType m p = ActionName ''DELETE'')
      \<and> (m \<notin> {''GET'', ''POST'', ''PUT'', ''PATCH'', ''DELETE''}
           \<and> (m \<in> set httpMethods \<or> m \<notin> set objectPrototypeKeys)
           \<longrightarrow> getActionType m p = ActionName ''ACCESS''))"
proof -
  have "m \<notin> set objectPrototypeKeys" if "m \<in> set httpMethods"
    using that httpMethods_not_inherited by blast
  then show ?thesis
    by (auto simp: getActionType_def methodMap_def)
qed

text \<open>
  A DELETE on the login path is a LOGIN and a GET on the logout path a LOGOUT; on a plan,
  each method gets the action of the table, and OPTIONS and an unknown token get ACCESS.
\<close>

theorem getActionType_classification_witness:
  "includesStr ''/api/auth/login'' ''/auth/login''
   \<and> getActionType ''DELETE'' ''/api/auth/login'' = ActionName ''LOGIN''
   \<and> \<not> includesStr ''/api/auth/logout'' ''/auth/login''
   \<and> includesStr ''/api/auth/logout'' ''/auth/logout''
   \<and> getActionType ''GET'' ''/api/auth/logout'' = ActionName ''LOGOUT''
   \<and> \<not> includesStr ''/api/plans/7'' ''/auth/login''
   \<and> \<not> includesStr ''/api/plans/7'' ''/auth/logout''
   \<and> getActionType ''GET'' ''/api/plans/7'' = ActionName ''SELECT''
   \<and> getActionType ''POST'' ''/api/plans/7'' = ActionName ''INSERT''
   \<and> getActionType ''PUT'' ''/api/plans/7'' = ActionName ''UPDATE''
   \<and> getActionType ''PATCH'' ''/api/plans/7'' = ActionName ''UPDATE''
   \<and> getActionType ''DELETE'' ''/api/plans/7'' = ActionName ''DELETE''
   \<and> ''OPTIONS'' \<notin> {''GET'', ''POST'', ''PUT'', ''PATCH'', ''DELETE''}
   \<and> ''OPTIONS'' \<in> set httpMethods
   \<and> getActionType ''OPTIONS'' ''/api/plans/7'' = ActionName ''ACCESS''
   \<and> ''X-CUSTOM'' \<notin> set objectPrototypeKeys
   \<and> getActionType ''X-CUSTOM'' ''/api/plans/7'' = ActionName ''ACCESS''"
  using getActionType_classification [of "''/api/auth/login''" "''DELETE''"]
    getActionType_classification [of "''/api/auth/logout''" "''GET''"]
    getActionType_classification [of "''/api/plans/7''" "''GET''"]
    getActionType_classification [of "''/api/plans/7''" "''POST''"]
    getActionType_classification [of "''/api/plans/7''" "''PUT''"]
    getActionType_classification [of "''/api/plans/7''" "''PATCH''"]
    getActionType_classification [of "''/api/plans/7''" "''DELETE''"]
    getActionType_classification [of "''/api/plans/7''" "''OPTIONS''"]
    getActionType_classification [of "''/api/plans/7''" "''X-CUSTOM''"]
  by (simp add: httpMethods_def objectPrototypeKeys_def)

text \<open>
  C6, as the code has it. The resource type is decided by which fragments occur anywhere in
  the path, tried in a fixed order: \<^verbatim>\<open>/members\<close> gives MEMBER; failing that
  \<^verbatim>\<open>/claims\<close> gives CLAIM; then \<^verbatim>\<open>/providers\<close> PROVIDER; then \<^verbatim>\<open>/users\<close> or
  \<^verbatim>\<open>/auth\<close> USER; then \<^verbatim>\<open>/admin\<close> SYSTEM; otherwise UNKNOWN. A path whose module
  segment (the second non-empty segment, the one after \<^verbatim>\<open>api\<close>) is \<^verbatim>\<open>providers\<close>
  classifies as PROVIDER provided neither \<^verbatim>\<open>/members\<close> nor \<^verbatim>\<open>/claims\<close> occurs in it.
\<close>

theorem getResourceType_by_containment:
  "(includesStr p ''/members'' \<longrightarrow> getResourceType p = ''MEMBER'')
   \<and> (\<not> includesStr p ''/members'' \<and> includesStr p ''/claims''
        \<longrightarrow> getResourceType p = ''CLAIM'')
   \<and> (\<not> includesStr p ''/members'' \<and> \<not> includesStr p ''/claims''
        \<and> includesStr p ''/providers'' \<longrightarrow> getResourceType p = ''PROVIDER'')
   \<and> (\<not> includesStr p ''/members'' \<and> \<not> includesStr p ''/claims''
        \<and> \<not> includesStr p ''/providers''
        \<and> (includesStr p ''/users'' \<or> includesStr p ''/auth'')
        \<longrightarrow> getResourceType p = ''USER'')
   \<and> (\<not> includesStr p ''/members'' \<and> \<not> includesStr p ''/claims''
        \<and> \<not> includesStr p ''/providers'' \<and> \<not> includesStr p ''/users''
        \<and> \<not> includesStr p ''/auth'' \<and> includesStr p ''/admin''
        \<longrightarrow> getResourceType p = ''SYSTEM'')
   \<and> (\<not> includesStr p ''/members'' \<and> \<not> includesStr p ''/claims''
        \<and> \<not> includesStr p ''/providers'' \<and> \<not> includesStr p ''/users''
        \<and> \<not> includesStr p ''/auth'' \<and> \<not> includesStr p ''/admin''
        \<longrightarrow> getResourceType p = ''UNKNOWN'')
   \<and> (getModuleName p = ''providers''
        \<and> \<not> includesStr p ''/members'' \<and> \<not> includesStr p ''/claims''
        \<longrightarrow> getResourceType p = ''PROVIDER'')"
proof -
  have "includesStr p ''/providers''" if "getModuleName p = ''providers''"
    using getModuleName_includes [OF that] by simp
  then show ?thesis by (simp add: getResourceType_def)
qed

theorem getResourceType_by_containment_witness:
  "includesStr ''/api/members/12'' ''/members''
   \<and> getResourceType ''/api/members/12'' = ''MEMBER''
   \<and> \<not> includesStr ''/api/claims'' ''/members'' \<and> includesStr ''/api/claims'' ''/claims''
   \<and> getResourceType ''/api/claims'' = ''CLAIM''
   \<and> getModuleName ''/api/providers/5'' = ''providers''
   \<and> \<not> includesStr ''/api/providers/5'' ''/members''
   \<and> \<not> includesStr ''/api/providers/5'' ''/claims''
   \<and> includesStr ''/api/providers/5'' ''/providers''
   \<and> getResourceType ''/api/providers/5'' = ''PROVIDER''
   \<and> includesStr ''/api/auth/login'' ''/auth''
   \<and> getResourceType ''/api/auth/login'' = ''USER''
   \<and> includesStr ''/api/admin/jobs'' ''/admin''
   \<and> getResourceType ''/api/admin/jobs'' = ''SYSTEM''
   \<and> getResourceType ''/api/plans'' = ''UNKNOWN''"
  using getResourceType_by_containment [of "''/api/members/12''"]
    getResourceType_by_containment [of "''/api/claims''"]
    getResourceType_by_containment [of "''/api/providers/5''"]
    getResourceType_by_containment [of "''/api/auth/login''"]
    getResourceType_by_containment [of "''/api/admin/jobs''"]
    getResourceType_by_containment [of "''/api/plans''"]
  by (simp add: getModuleName_def segments_def at_index_def)

text \<open>
  The claims of a provider: the module segment is \<^verbatim>\<open>providers\<close>, yet the later
  \<^verbatim>\<open>/claims\<close> decides and the resource type is CLAIM.
\<close>

theorem getResourceType_first_segment_counterexample:
  "getModuleName ''/api/providers/5/claims'' = ''providers''
   \<and> getResourceType ''/api/providers/5/claims'' = ''CLAIM''
   \<and> getResourceType ''/api/providers/5/claims'' \<noteq> ''PROVIDER''"
  by (simp add: getModuleName_def segments_def at_index_def getResourceType_def)

section \<open>Audit gating\<close>

lemma unknown_excludes:
  assumes "getResourceType p = ''UNKNOWN''"
  shows "\<not> includesStr p ''/members''" "\<not> includesStr p ''/claims''"
    "\<not> includesStr p ''/providers''" "\<not> includesStr p ''/auth''" "\<not> includesStr p ''/admin''"
  using assms by (auto simp: getResourceType_def split: if_splits)

text \<open>
  C2, as the code has it. An unauthenticated GET whose path classifies as UNKNOWN (so it
  has no auth segment, no admin segment and nothing PHI-bearing) is not audited; every
  authenticated request is audited, in particular an authenticated GET on a member path.
\<close>

theorem shouldAudit_gating:
  "(req_user req = None \<and> req_method req = ''GET'' \<and> getResourceType (path req) = ''UNKNOWN''
      \<longrightarrow> \<not> shouldAuditRequest req)
   \<and> (req_user req \<noteq> None \<longrightarrow> shouldAuditRequest req)"
proof (intro conjI impI)
  assume h: "req_user req = None \<and> req_method req = ''GET'' \<and> getResourceType (path req) = ''UNKNOWN''"
  then have u: "getResourceType (path req) = ''UNKNOWN''" by simp
  have "\<not> includesStr (path req) (''/auth'' @ ''/'')"
    using unknown_excludes(4) [OF u] includes_prefix_of_needle by blast
  moreover have "\<not> includesStr (path req) (''/admin'' @ ''/'')"
    using unknown_excludes(5) [OF u] includes_prefix_of_needle by blast
  moreover have "\<not> includesStr (path req) (''/members'' @ ''/'')"
    using unknown_excludes(1) [OF u] includes_prefix_of_needle by blast
  moreover have "\<not> includesStr (path req) (''/claims'' @ ''/'')"
    using unknown_excludes(2) [OF u] includes_prefix_of_needle by blast
  moreover have "\<not> includesStr (path req) (''/providers'' @ ''/'')"
    using unknown_excludes(3) [OF u] includes_prefix_of_needle by blast
  ultimately show "\<not> shouldAuditRequest req"
    using h by (simp add: shouldAuditRequest_def)
next
  assume "req_user req \<noteq> None"
  then show "shouldAuditRequest req" by (simp add: shouldAuditRequest_def)
qed

theorem shouldAudit_gating_witness:
  "req_user (sample_request ''GET'' ''/api/plans'' None) = None
   \<and> req_method (sample_request ''GET'' ''/api/plans'' None) = ''GET''
   \<and> getResourceType (path (sample_request ''GET'' ''/api/plans'' None)) = ''UNKNOWN''
   \<and> \<not> shouldAuditRequest (sample_request ''GET'' ''/api/plans'' None)
   \<and> req_user (sample_request ''GET'' ''/api/members/12'' (Some clerk)) \<noteq> None
   \<and> getResourceType (path (sample_request ''GET'' ''/api/members/12'' (Some clerk))) = ''MEMBER''
   \<and> shouldAuditRequest (sample_request ''GET'' ''/api/members/12'' (Some clerk))"
  using shouldAudit_gating [of "sample_request ''GET'' ''/api/plans'' None"]
    shouldAudit_gating [of "sample_request ''GET'' ''/api/members/12'' (Some clerk)"]
  by (simp add: sample_request_def getResourceType_def)

text \<open>
  An authenticated GET of the plans list: no auth or admin segment, no PHI, resource type
  UNKNOWN, and it is audited.
\<close>

theorem shouldAudit_authenticated_counterexample:
  "req_user (sample_request ''GET'' ''/api/plans'' (Some clerk)) \<noteq> None
   \<and> req_method (sample_request ''GET'' ''/api/plans'' (Some clerk)) = ''GET''
   \<and> \<not> includesStr (path (sample_request ''GET'' ''/api/plans'' (Some clerk))) ''/auth/''
   \<and> \<not> includesStr (path (sample_request ''GET'' ''/api/plans'' (Some clerk))) ''/admin/''
   \<and> \<not> containsPHI (sample_request ''GET'' ''/api/plans'' (Some clerk))
   \<and> getResourceType (path (sample_request ''GET'' ''/api/plans'' (Some clerk))) = ''UNKNOWN''
   \<and> shouldAuditRequest (sample_request ''GET'' ''/api/plans'' (Some clerk))"
  by (simp add: sample_request_def containsPHI_def getResourceType_def shouldAuditRequest_def)

section \<open>Facts about the handlers and the store\<close>


lemma query_accepted:
  "pool (fst st) w = (Inr u, s') \<Longrightarrow> query pool w st = (Inr u, (s', snd st))"
  by (simp add: query_def)

lemma logErrorToDatabase_returns: "fst (logErrorToDatabase pool ev error req sc st) = Inr ()"
  unfolding logErrorToDatabase_def
  by (auto split: prod.splits sum.splits)

lemma logAuditEvent_returns: "fst (logAuditEvent pool ra req st) = Inr ()"
  unfolding logAuditEvent_def
  by (auto split: prod.splits sum.splits)

lemma logPHIAccess_returns: "fst (logPHIAccess pool req st) = Inr ()"
  unfolding logPHIAccess_def
  by (auto split: prod.splits sum.splits option.splits)


lemma logErrorToDatabase_accepted:
  "pool (fst st) (InsertSystemError (systemErrorRow ev error req sc)) = (Inr (), s') \<Longrightarrow>
   logErrorToDatabase pool ev error req sc st = (Inr (), (s', snd st))"
  by (simp add: logErrorToDatabase_def query_accepted)



lemma onFinish_sequence:
  "onFinish pool ra req st =
     (Inr (),
      (let st1 = (if shouldAuditRequest req then snd (logAuditEvent pool ra req st) else st)
       in if containsPHI req then snd (logPHIAccess pool req st1) else st1))"
proof -
  define st1 where "st1 = (if shouldAuditRequest req then snd (logAuditEvent pool ra req st) else st)"
  have a: "(if shouldAuditRequest req then logAuditEvent pool ra req st else (Inr (), st))
           = (Inr (), st1)"
    using logAuditEvent_returns [of pool ra req st]
    by (simp add: st1_def) (metis prod.collapse)
  define st2 where "st2 = (if containsPHI req then snd (logPHIAccess pool req st1) else st1)"
  have b: "(if containsPHI req then logPHIAccess pool req st1 else (Inr (), st1)) = (Inr (), st2)"
    using logPHIAccess_returns [of pool req st1]
    by (simp add: st2_def) (metis prod.collapse)
  have "onFinish pool ra req st = (Inr (), st2)"
    unfolding onFinish_def a using b by simp
  then show ?thesis by (simp add: st1_def st2_def Let_def)
qed

lemma onFinish_returns: "fst (onFinish pool ra req st) = Inr ()"
  by (simp add: onFinish_sequence)

lemma onFinish_unauthenticated:
  assumes "req_user req = None"
  shows "onFinish pool remoteAddress req st =
        (if shouldAuditRequest req then logAuditEvent pool remoteAddress req st else (Inr (), st))"
proof -
  obtain st1 where "logAuditEvent pool remoteAddress req st = (Inr (), st1)"
    using logAuditEvent_returns [of pool remoteAddress req st]
    by (metis prod.collapse)
  with assms show ?thesis by (simp add: onFinish_def logPHIAccess_def)
qed

lemma errorHandler_state:
  "snd (errorHandler pool send ev t1 t2 error req st) =
     snd (logErrorToDatabase pool ev error req
            (case statusCode error of Some c \<Rightarrow> c | None \<Rightarrow> 500)
            (logger_error ''API Error:'' st))"
proof -
  let ?sc0 = "case statusCode error of Some c \<Rightarrow> c | None \<Rightarrow> 500"
  obtain st' where l: "logErrorToDatabase pool ev error req ?sc0
            (logger_error ''API Error:'' st) = (Inr (), st')"
    using logErrorToDatabase_returns [of pool ev error req ?sc0 "logger_error ''API Error:'' st"]
    by (metis prod.collapse)
  show ?thesis
  proof (cases "handleSpecificErrorTypes error ?sc0 (message error)")
    case (Inl e)
    then show ?thesis unfolding errorHandler_def Let_def l by simp
  next
    case (Inr cm)
    then show ?thesis unfolding errorHandler_def Let_def l
      by (cases cm) (simp split: option.split)
  qed
qed

lemma errorHandler_outcome:
  "fst (errorHandler pool send ev t1 t2 error req st) =
     (case handleSpecificErrorTypes error
             (case statusCode error of Some c \<Rightarrow> c | None \<Rightarrow> 500) (message error) of
        Inl e \<Rightarrow> Inl e
      | Inr (sc1, m1) \<Rightarrow>
          (let response = \<lparr> res_status = sc1,
                 res_message = (if NODE_ENV ev = Some ''production'' \<and> sc1 = 500
                     then ''Internal server error occurred'' else m1),
                 res_timestamp = t2,
                 res_stack = (if NODE_ENV ev = Some ''development'' then Some (stack error) else None),
                 res_details = (if NODE_ENV ev = Some ''development''
                     then Some \<lparr> det_message = message error,
                        det_stack = stack error,
                        det_url = originalUrl req,
                        det_method = req_method req,
                        det_ip = ip req,
                        det_userAgent = userAgent req,
                        det_body = body req,
                        det_params = params req,
                        det_query = query_params req,
                        det_statusCode = (case statusCode error of Some c \<Rightarrow> c | None \<Rightarrow> 500),
                        det_timestamp = t1 \<rparr> else None),
                 res_requestId = (if truthy (lookup (headers req) ''x-request-id'')
                     then Some (lookup (headers req) ''x-request-id'') else None) \<rparr>
           in case send sc1 response of
                Some e \<Rightarrow> Inl e
              | None \<Rightarrow> Inr \<lparr> sent_status = sc1, sent_body = response \<rparr>))"
proof (cases "handleSpecificErrorTypes error
             (case statusCode error of Some c \<Rightarrow> c | None \<Rightarrow> 500) (message error)")
  case (Inl e)
  then show ?thesis unfolding errorHandler_def Let_def by simp
next
  case (Inr cm)
  then show ?thesis unfolding errorHandler_def Let_def
    by (cases cm) (simp split: option.split)
qed


lemma errorHandler_sent:
  assumes "responseOf (errorHandler pool send ev t1 t2 error req st) = Some r"
  shows "\<exists>sc1 m1. handleSpecificErrorTypes error
             (case statusCode error of Some c \<Rightarrow> c | None \<Rightarrow> 500) (message error) = Inr (sc1, m1)
     \<and> send sc1 (sent_body r) = None
     \<and> r = \<lparr> sent_status = sc1, sent_body = \<lparr> res_status = sc1,
                 res_message = (if NODE_ENV ev = Some ''production'' \<and> sc1 = 500
                     then ''Internal server error occurred'' else m1),
                 res_timestamp = t2,
                 res_stack = (if NODE_ENV ev = Some ''development'' then Some (stack error) else None),
                 res_details = (if NODE_ENV ev = Some ''development''
                     then Some \<lparr> det_message = message error,
                        det_stack = stack error,
                        det_url = originalUrl req,
                        det_method = req_method req,
                        det_ip = ip req,
                        det_userAgent = userAgent req,
                        det_body = body req,
                        det_params = params req,
                        det_query = query_params req,
                        det_statusCode = (case statusCode error of Some c \<Rightarrow> c | None \<Rightarrow> 500),
                        det_timestamp = t1 \<rparr> else None),
                 res_requestId = (if truthy (lookup (headers req) ''x-request-id'')
                     then Some (lookup (headers req) ''x-request-id'') else None) \<rparr> \<rparr>"
proof (cases "handleSpecificErrorTypes error
             (case statusCode error of Some c \<Rightarrow> c | None \<Rightarrow> 500) (message error)")
  case (Inl e)
  with assms show ?thesis by (simp add: responseOf_def errorHandler_outcome)
next
  case (Inr cm)
  obtain sc1 m1 where cm: "cm = (sc1, m1)" by (cases cm)
  define resp where "resp = \<lparr> res_status = sc1,
                 res_message = (if NODE_ENV ev = Some ''production'' \<and> sc1 = 500
                     then ''Internal server error occurred'' else m1),
                 res_timestamp = t2,
                 res_stack = (if NODE_ENV ev = Some ''development'' then Some (stack error) else None),
                 res_details = (if NODE_ENV ev = Some ''development''
                     then Some \<lparr> det_message = message error,
                        det_stack = stack error,
                        det_url = originalUrl req,
                        det_method = req_method req,
                        det_ip = ip req,
                        det_userAgent = userAgent req,
                        det_body = body req,
                        det_params = params req,
                        det_query = query_params req,
                        det_statusCode = (case statusCode error of Some c \<Rightarrow> c | None \<Rightarrow> 500),
                        det_timestamp = t1 \<rparr> else None),
                 res_requestId = (if truthy (lookup (headers req) ''x-request-id'')
                     then Some (lookup (headers req) ''x-request-id'') else None) \<rparr>"
  have o: "fst (errorHandler pool send ev t1 t2 error req st) =
      (case send sc1 resp of Some e \<Rightarrow> Inl e
       | None \<Rightarrow> Inr \<lparr> sent_status = sc1, sent_body = resp \<rparr>)"
    by (simp only: errorHandler_outcome Inr cm sum.case prod.case Let_def resp_def)
  show ?thesis
  proof (cases "send sc1 resp")
    case None
    with o assms have r: "r = \<lparr> sent_status = sc1, sent_body = resp \<rparr>"
      by (simp add: responseOf_def)
    have "handleSpecificErrorTypes error
             (case statusCode error of Some c \<Rightarrow> c | None \<Rightarrow> 500) (message error) = Inr (sc1, m1)
        \<and> send sc1 (sent_body r) = None \<and> r = \<lparr> sent_status = sc1, sent_body = resp \<rparr>"
      using Inr cm None r by simp
    then show ?thesis unfolding resp_def by blast
  next
    case (Some e)
    with o assms show ?thesis by (simp add: responseOf_def)
  qed
qed

lemma handleSpecificErrorTypes_status:
  "handleSpecificErrorTypes error sc0 m0 = Inr (sc1, m1) \<Longrightarrow>
   sc1 = (if name error = ''ValidationError'' then 400
          else if name error = ''UnauthorizedError'' then 401
          else if name error = ''CastError'' then 400
          else if code error = Some ''23505'' then 409
          else if code error = Some ''23503'' then 400
          else if code error = Some ''23502'' then 400
          else sc0)"
  by (auto simp: handleSpecificErrorTypes_def split: if_splits sum.splits)

lemma handleSpecificErrorTypes_message:
  "handleSpecificErrorTypes error sc0 m0 = Inr (sc1, m1) \<Longrightarrow>
   name error \<notin> {''ValidationError'', ''UnauthorizedError'', ''CastError''} \<Longrightarrow>
   m1 = (if code error = Some ''23505'' then ''Resource already exists''
         else if code error = Some ''23503'' then ''Invalid reference to related resource''
         else if code error = Some ''23502'' then ''Required field is missing''
         else m0)"
  by (auto simp: handleSpecificErrorTypes_def split: if_splits)

lemma handleSpecificErrorTypes_raises:
  "handleSpecificErrorTypes error sc0 m0 = Inl e \<longleftrightarrow>
   e = ''TypeError'' \<and> name error = ''ValidationError''
     \<and> (\<exists>ds. details error = Some ds \<and> Nullish \<in> set ds)"
  by (auto simp: handleSpecificErrorTypes_def formatValidationError_def
      split: if_splits sum.splits option.splits)

lemma errorHandler_sends:
  assumes "\<forall>sc b. send sc b = None"
    and "\<not> (name error = ''ValidationError''
           \<and> (\<exists>ds. details error = Some ds \<and> Nullish \<in> set ds))"
  shows "\<exists>r. responseOf (errorHandler pool send ev t1 t2 error req st) = Some r"
proof (cases "handleSpecificErrorTypes error
             (case statusCode error of Some c \<Rightarrow> c | None \<Rightarrow> 500) (message error)")
  case (Inl e)
  with assms(2) show ?thesis using handleSpecificErrorTypes_raises by blast
next
  case (Inr cm)
  obtain sc1 m1 where cm: "cm = (sc1, m1)" by (cases cm)
  with Inr assms(1) show ?thesis
    by (simp add: responseOf_def errorHandler_outcome Let_def)
qed


lemma errorHandler_store_recording:
  "fst (snd (errorHandler recording_pool send ev t1 t2 error req (s, lg))) =
     s @ [InsertSystemError (systemErrorRow ev error req
            (case statusCode error of Some c \<Rightarrow> c | None \<Rightarrow> 500))]"
  by (simp add: errorHandler_state logErrorToDatabase_def query_def recording_pool_def
      logger_error_def)

section \<open>Error classification and masking\<close>

text \<open>
  C4, as the code has it. When the handler sends its response, the status is chosen by
  first match: name ValidationError gives 400, UnauthorizedError 401, CastError 400, code
  23505 gives 409 with the message that the resource already exists, 23503 gives 400, 23502
  gives 400, otherwise the status code on the error, otherwise 500; and a response is sent
  whenever the response object accepts it and no entry of a validation error's details is
  null. The row handed to the store is built before that classification: its severity is
  HIGH when the error's own status code (500 when it has none) is at least 500, MEDIUM when
  it is 400 to 499, else LOW.
\<close>

theorem errorHandler_classification:
  "(responseOf (errorHandler pool send ev t1 t2 error req st) = Some r \<longrightarrow>
      sent_status r =
        (if name error = ''ValidationError'' then 400
         else if name error = ''UnauthorizedError'' then 401
         else if name error = ''CastError'' then 400
         else if code error = Some ''23505'' then 409
         else if code error = Some ''23503'' then 400
         else if code error = Some ''23502'' then 400
         else (case statusCode error of Some c \<Rightarrow> c | None \<Rightarrow> 500))
    \<and> (name error \<notin> {''ValidationError'', ''UnauthorizedError'', ''CastError''}
         \<and> code error = Some ''23505''
         \<longrightarrow> res_message (sent_body r) = ''Resource already exists''))
   \<and> ((\<forall>sc b. send sc b = None)
        \<and> \<not> (name error = ''ValidationError''
              \<and> (\<exists>ds. details error = Some ds \<and> Nullish \<in> set ds))
        \<longrightarrow> (\<exists>r'. responseOf (errorHandler pool send ev t1 t2 error req st) = Some r'))
   \<and> map severityOf (fst (snd (errorHandler recording_pool send ev t1 t2 error req (s, lg)))) =
       map severityOf s @
       [Some (if 500 \<le> (case statusCode error of Some c \<Rightarrow> c | None \<Rightarrow> 500) then ''HIGH''
              else if 400 \<le> (case statusCode error of Some c \<Rightarrow> c | None \<Rightarrow> 500) then ''MEDIUM''
              else ''LOW'')]"
proof (intro conjI impI)
  assume a: "responseOf (errorHandler pool send ev t1 t2 error req st) = Some r"
  from errorHandler_sent [OF a] obtain sc1 m1 where
    h: "handleSpecificErrorTypes error
          (case statusCode error of Some c \<Rightarrow> c | None \<Rightarrow> 500) (message error) = Inr (sc1, m1)"
    and s: "sent_status r = sc1"
    and m: "res_message (sent_body r) = (if NODE_ENV ev = Some ''production'' \<and> sc1 = 500
                     then ''Internal server error occurred'' else m1)"
    by auto
  show "sent_status r =
        (if name error = ''ValidationError'' then 400
         else if name error = ''UnauthorizedError'' then 401
         else if name error = ''CastError'' then 400
         else if code error = Some ''23505'' then 409
         else if code error = Some ''23503'' then 400
         else if code error = Some ''23502'' then 400
         else (case statusCode error of Some c \<Rightarrow> c | None \<Rightarrow> 500))"
    using handleSpecificErrorTypes_status [OF h] s by simp
  show "res_message (sent_body r) = ''Resource already exists''"
    if "name error \<notin> {''ValidationError'', ''UnauthorizedError'', ''CastError''}
         \<and> code error = Some ''23505''"
  proof -
    from that handleSpecificErrorTypes_status [OF h] have "sc1 = 409" by simp
    moreover from that handleSpecificErrorTypes_message [OF h] have "m1 = ''Resource already exists''"
      by simp
    ultimately show ?thesis using m by simp
  qed
next
  assume "(\<forall>sc b. send sc b = None)
        \<and> \<not> (name error = ''ValidationError''
              \<and> (\<exists>ds. details error = Some ds \<and> Nullish \<in> set ds))"
  then show "\<exists>r'. responseOf (errorHandler pool send ev t1 t2 error req st) = Some r'"
    using errorHandler_sends [of send error pool ev t1 t2 req st] by blast
next
  show "map severityOf (fst (snd (errorHandler recording_pool send ev t1 t2 error req (s, lg)))) =
       map severityOf s @
       [Some (if 500 \<le> (case statusCode error of Some c \<Rightarrow> c | None \<Rightarrow> 500) then ''HIGH''
              else if 400 \<le> (case statusCode error of Some c \<Rightarrow> c | None \<Rightarrow> 500) then ''MEDIUM''
              else ''LOW'')]"
    by (simp add: errorHandler_store_recording systemErrorRow_def getSeverityLevel_def)
qed

theorem errorHandler_classification_witness:
  "\<exists>r. responseOf (errorHandler recording_pool (strict_send False) production
        ''2024-05-01T10:00:00.000Z'' ''2024-05-01T10:00:00.020Z'' sample_unique_violation
        (sample_request ''POST'' ''/api/plans'' None) ([], [])) = Some r
     \<and> sent_status r = 409
     \<and> res_message (sent_body r) = ''Resource already exists''
     \<and> map severityOf
       (fst (snd (errorHandler recording_pool (strict_send False) production
          ''2024-05-01T10:00:00.000Z'' ''2024-05-01T10:00:00.020Z'' sample_unique_violation
          (sample_request ''POST'' ''/api/plans'' None) ([], [])))) = [Some ''HIGH'']
     \<and> (\<forall>sc b. lenient_send sc b = None)
     \<and> (\<exists>r'. responseOf (errorHandler recording_pool lenient_send production
          ''2024-05-01T10:00:00.000Z'' ''2024-05-01T10:00:00.020Z'' sample_unique_violation
          (sample_request ''POST'' ''/api/plans'' None) ([], [])) = Some r')"
proof -
  have l: "\<forall>sc b. lenient_send sc b = None" by (simp add: lenient_send_def)
  have n: "\<not> (name sample_unique_violation = ''ValidationError''
              \<and> (\<exists>ds. details sample_unique_violation = Some ds \<and> Nullish \<in> set ds))"
    by (simp add: sample_unique_violation_def)
  have e: "\<exists>r'. responseOf (errorHandler recording_pool lenient_send production
          ''2024-05-01T10:00:00.000Z'' ''2024-05-01T10:00:00.020Z'' sample_unique_violation
          (sample_request ''POST'' ''/api/plans'' None) ([], [])) = Some r'"
    using l n errorHandler_classification [of recording_pool lenient_send production
        "''2024-05-01T10:00:00.000Z''" "''2024-05-01T10:00:00.020Z''" sample_unique_violation
        "sample_request ''POST'' ''/api/plans'' None" "([], [])"]
    by blast
  have "\<exists>r. responseOf (errorHandler recording_pool (strict_send False) production
        ''2024-05-01T10:00:00.000Z'' ''2024-05-01T10:00:00.020Z'' sample_unique_violation
        (sample_request ''POST'' ''/api/plans'' None) ([], [])) = Some r"
    by (simp add: responseOf_def errorHandler_outcome Let_def handleSpecificErrorTypes_def
        sample_unique_violation_def strict_send_def)
  then obtain r where
    r: "responseOf (errorHandler recording_pool (strict_send False) production
        ''2024-05-01T10:00:00.000Z'' ''2024-05-01T10:00:00.020Z'' sample_unique_violation
        (sample_request ''POST'' ''/api/plans'' None) ([], [])) = Some r"
    by blast
  show ?thesis
    using r l e errorHandler_classification [of recording_pool "strict_send False" production
        "''2024-05-01T10:00:00.000Z''" "''2024-05-01T10:00:00.020Z''" sample_unique_violation
        "sample_request ''POST'' ''/api/plans'' None" "([], [])" r "[]" "[]"]
    by (simp add: sample_unique_violation_def)
qed

text \<open>
  A validation error that carries no status code of its own: the response is a 400, the
  row in the store says HIGH.
\<close>

theorem errorHandler_severity_counterexample:
  "map_option sent_status
     (responseOf (errorHandler recording_pool (strict_send False) production
        ''2024-05-01T10:00:00.000Z'' ''2024-05-01T10:00:00.020Z'' sample_validation_error
        (sample_request ''POST'' ''/api/members'' None) ([], []))) = Some 400
   \<and> map severityOf
       (fst (snd (errorHandler recording_pool (strict_send False) production
          ''2024-05-01T10:00:00.000Z'' ''2024-05-01T10:00:00.020Z'' sample_validation_error
          (sample_request ''POST'' ''/api/members'' None) ([], [])))) = [Some ''HIGH'']"
  by (simp add: responseOf_def errorHandler_outcome errorHandler_store_recording Let_def
      handleSpecificErrorTypes_def formatValidationError_def strict_send_def
      sample_validation_error_def systemErrorRow_def getSeverityLevel_def)

text \<open>
  C7, as the code has it. In the response the handler sends, the message is replaced by the
  generic internal-error string exactly when the deployment mode is \<^verbatim>\<open>production\<close> and
  the classified status is exactly 500; an unclassified error in any other mode, or with
  any other status, keeps its own message. The stack trace and the error details are in the
  response if and only if the mode is \<^verbatim>\<open>development\<close>, and the details then hold the
  request body as it was received.
\<close>

theorem errorHandler_masking:
  "(responseOf (errorHandler pool send ev t1 t2 error req st) = Some r \<longrightarrow>
       (NODE_ENV ev = Some ''production'' \<and> sent_status r = 500
          \<longrightarrow> res_message (sent_body r) = ''Internal server error occurred'')
     \<and> (\<not> (NODE_ENV ev = Some ''production'' \<and> sent_status r = 500)
          \<and> name error \<notin> {''ValidationError'', ''UnauthorizedError'', ''CastError''}
          \<and> code error \<notin> {Some ''23505'', Some ''23503'', Some ''23502''}
          \<longrightarrow> res_message (sent_body r) = message error)
     \<and> ((res_stack (sent_body r) \<noteq> None) = (NODE_ENV ev = Some ''development''))
     \<and> ((res_details (sent_body r) \<noteq> None) = (NODE_ENV ev = Some ''development''))
     \<and> (NODE_ENV ev = Some ''development''
          \<longrightarrow> res_stack (sent_body r) = Some (stack error)
            \<and> map_option det_body (res_details (sent_body r)) = Some (body req)))
   \<and> ((\<forall>sc b. send sc b = None)
        \<and> \<not> (name error = ''ValidationError''
              \<and> (\<exists>ds. details error = Some ds \<and> Nullish \<in> set ds))
        \<longrightarrow> (\<exists>r'. responseOf (errorHandler pool send ev t1 t2 error req st) = Some r'))"
proof (intro conjI impI)
  assume "(\<forall>sc b. send sc b = None)
        \<and> \<not> (name error = ''ValidationError''
              \<and> (\<exists>ds. details error = Some ds \<and> Nullish \<in> set ds))"
  then show "\<exists>r'. responseOf (errorHandler pool send ev t1 t2 error req st) = Some r'"
    using errorHandler_sends [of send error pool ev t1 t2 req st] by blast
next
  assume a: "responseOf (errorHandler pool send ev t1 t2 error req st) = Some r"
  from errorHandler_sent [OF a] obtain sc1 m1 where
    h: "handleSpecificErrorTypes error
          (case statusCode error of Some c \<Rightarrow> c | None \<Rightarrow> 500) (message error) = Inr (sc1, m1)"
    and s: "sent_status r = sc1"
    and m: "res_message (sent_body r) = (if NODE_ENV ev = Some ''production'' \<and> sc1 = 500
                     then ''Internal server error occurred'' else m1)"
    and k: "res_stack (sent_body r)
              = (if NODE_ENV ev = Some ''development'' then Some (stack error) else None)"
    and d: "map_option det_body (res_details (sent_body r))
              = (if NODE_ENV ev = Some ''development'' then Some (body req) else None)"
    by auto
  show "res_message (sent_body r) = ''Internal server error occurred''"
    if "NODE_ENV ev = Some ''production'' \<and> sent_status r = 500"
    using that s m by simp
  show "res_message (sent_body r) = message error"
    if "\<not> (NODE_ENV ev = Some ''production'' \<and> sent_status r = 500)
          \<and> name error \<notin> {''ValidationError'', ''UnauthorizedError'', ''CastError''}
          \<and> code error \<notin> {Some ''23505'', Some ''23503'', Some ''23502''}"
  proof -
    from that handleSpecificErrorTypes_message [OF h] have "m1 = message error" by simp
    with that s m show ?thesis by auto
  qed
  show "(res_stack (sent_body r) \<noteq> None) = (NODE_ENV ev = Some ''development'')"
    using k by simp
  show "(res_details (sent_body r) \<noteq> None) = (NODE_ENV ev = Some ''development'')"
    using d by (cases "res_details (sent_body r)") (auto split: if_splits)
  show "res_stack (sent_body r) = Some (stack error)" if "NODE_ENV ev = Some ''development''"
    using that k by simp
  show "map_option det_body (res_details (sent_body r)) = Some (body req)"
    if "NODE_ENV ev = Some ''development''"
    using that d by simp
qed

theorem errorHandler_masking_witness:
  "(\<exists>r. responseOf (errorHandler recording_pool (strict_send False) production
        ''2024-05-01T10:00:00.000Z'' ''2024-05-01T10:00:00.020Z'' (sample_upstream_error None)
        (sample_request ''GET'' ''/api/plans'' None) ([], [])) = Some r
     \<and> NODE_ENV production = Some ''production''
     \<and> sent_status r = 500
     \<and> res_message (sent_body r) = ''Internal server error occurred''
     \<and> res_stack (sent_body r) = None \<and> res_details (sent_body r) = None)
   \<and> (\<exists>r. responseOf (errorHandler recording_pool lenient_send development
        ''2024-05-01T10:00:00.000Z'' ''2024-05-01T10:00:00.020Z'' (sample_upstream_error None)
        (sample_request ''GET'' ''/api/plans'' None) ([], [])) = Some r
     \<and> (\<forall>sc b. lenient_send sc b = None)
     \<and> NODE_ENV development = Some ''development''
     \<and> sent_status r = 500
     \<and> res_message (sent_body r) = ''connect ECONNREFUSED 10.0.0.5:5432''
     \<and> res_stack (sent_body r) = Some (Some ''at Pool.connect'')
     \<and> map_option det_body (res_details (sent_body r)) = Some (JObj []))"
proof -
  have "\<exists>r. responseOf (errorHandler recording_pool (strict_send False) production
        ''2024-05-01T10:00:00.000Z'' ''2024-05-01T10:00:00.020Z'' (sample_upstream_error None)
        (sample_request ''GET'' ''/api/plans'' None) ([], [])) = Some r \<and> sent_status r = 500"
    by (simp add: responseOf_def errorHandler_outcome Let_def handleSpecificErrorTypes_def
        sample_upstream_error_def strict_send_def)
  then obtain r1 where
    r1: "responseOf (errorHandler recording_pool (strict_send False) production
        ''2024-05-01T10:00:00.000Z'' ''2024-05-01T10:00:00.020Z'' (sample_upstream_error None)
        (sample_request ''GET'' ''/api/plans'' None) ([], [])) = Some r1"
    and s1: "sent_status r1 = 500"
    by blast
  have l: "\<forall>sc b. lenient_send sc b = None" by (simp add: lenient_send_def)
  have "\<exists>r. responseOf (errorHandler recording_pool lenient_send development
        ''2024-05-01T10:00:00.000Z'' ''2024-05-01T10:00:00.020Z'' (sample_upstream_error None)
        (sample_request ''GET'' ''/api/plans'' None) ([], [])) = Some r \<and> sent_status r = 500"
    by (simp add: responseOf_def errorHandler_outcome Let_def handleSpecificErrorTypes_def
        sample_upstream_error_def lenient_send_def)
  then obtain r2 where
    r2: "responseOf (errorHandler recording_pool lenient_send development
        ''2024-05-01T10:00:00.000Z'' ''2024-05-01T10:00:00.020Z'' (sample_upstream_error None)
        (sample_request ''GET'' ''/api/plans'' None) ([], [])) = Some r2"
    and s2: "sent_status r2 = 500"
    by blast
  have p: "NODE_ENV production = Some ''production''" by (simp add: production_def)
  have d: "NODE_ENV development = Some ''development''" by (simp add: development_def)
  from errorHandler_masking [of recording_pool "strict_send False" production
        "''2024-05-01T10:00:00.000Z''" "''2024-05-01T10:00:00.020Z''" "sample_upstream_error None"
        "sample_request ''GET'' ''/api/plans'' None" "([], [])" r1] r1 s1 p
  have a: "res_message (sent_body r1) = ''Internal server error occurred''
     \<and> res_stack (sent_body r1) = None \<and> res_details (sent_body r1) = None"
    by simp
  from errorHandler_masking [of recording_pool lenient_send development
        "''2024-05-01T10:00:00.000Z''" "''2024-05-01T10:00:00.020Z''" "sample_upstream_error None"
        "sample_request ''GET'' ''/api/plans'' None" "([], [])" r2] r2 s2 d
  have b: "res_message (sent_body r2) = ''connect ECONNREFUSED 10.0.0.5:5432''
     \<and> res_stack (sent_body r2) = Some (Some ''at Pool.connect'')
     \<and> map_option det_body (res_details (sent_body r2)) = Some (JObj [])"
    by (simp add: sample_upstream_error_def sample_request_def)
  from r1 s1 p a r2 s2 d b l show ?thesis by blast
qed

text \<open>
  A refused database connection surfaces as an error without a status code in a staging
  deployment, and as a 503 in production: both reach the client with the message intact.
\<close>

theorem errorHandler_masking_counterexample:
  "map_option sent_status
     (responseOf (errorHandler recording_pool (strict_send False) staging
        ''2024-05-01T10:00:00.000Z'' ''2024-05-01T10:00:00.020Z'' (sample_upstream_error None)
        (sample_request ''GET'' ''/api/plans'' None) ([], []))) = Some 500
   \<and> map_option (res_message \<circ> sent_body)
     (responseOf (errorHandler recording_pool (strict_send False) staging
        ''2024-05-01T10:00:00.000Z'' ''2024-05-01T10:00:00.020Z'' (sample_upstream_error None)
        (sample_request ''GET'' ''/api/plans'' None) ([], [])))
       = Some ''connect ECONNREFUSED 10.0.0.5:5432''
   \<and> map_option sent_status
     (responseOf (errorHandler recording_pool (strict_send False) production
        ''2024-05-01T10:00:00.000Z'' ''2024-05-01T10:00:00.020Z'' (sample_upstream_error (Some 503))
        (sample_request ''GET'' ''/api/plans'' None) ([], []))) = Some 503
   \<and> map_option (res_message \<circ> sent_body)
     (responseOf (errorHandler recording_pool (strict_send False) production
        ''2024-05-01T10:00:00.000Z'' ''2024-05-01T10:00:00.020Z'' (sample_upstream_error (Some 503))
        (sample_request ''GET'' ''/api/plans'' None) ([], [])))
       = Some ''connect ECONNREFUSED 10.0.0.5:5432''"
  by (simp add: responseOf_def errorHandler_outcome Let_def handleSpecificErrorTypes_def
      strict_send_def sample_upstream_error_def staging_def production_def)

section \<open>Fail-safe logging\<close>




section \<open>PHI access records\<close>

text \<open>
  C10. For a request without an authenticated user, \<^verbatim>\<open>logPHIAccess\<close> returns at once
  and leaves store and log as they were, so the recorder does no more than the audit write
  (if the request is to be audited) and no PHI access record reaches the store. Such a
  request can still be audited: an unauthenticated POST on the members path is PHI-bearing
  and produces an audit record.
\<close>

theorem phi_access_requires_principal:
  "(req_user req = None \<longrightarrow>
      logPHIAccess pool req st = (Inr (), st)
    \<and> onFinish pool remoteAddress req st =
        (if shouldAuditRequest req then logAuditEvent pool remoteAddress req st else (Inr (), st))
    \<and> filter isPhiWrite (fst (snd (onFinish recording_pool remoteAddress req (s, lg))))
        = filter isPhiWrite s)
   \<and> (\<exists>r. req_user r = None \<and> containsPHI r \<and> shouldAuditRequest r
          \<and> filter isAuditWrite (fst (snd (onFinish recording_pool remoteAddress r ([], [])))) \<noteq> [])"
proof (intro conjI impI)
  assume u: "req_user req = None"
  show "logPHIAccess pool req st = (Inr (), st)"
    using u by (simp add: logPHIAccess_def)
  show "onFinish pool remoteAddress req st =
        (if shouldAuditRequest req then logAuditEvent pool remoteAddress req st else (Inr (), st))"
    using u by (rule onFinish_unauthenticated)
  show "filter isPhiWrite (fst (snd (onFinish recording_pool remoteAddress req (s, lg))))
        = filter isPhiWrite s"
    by (simp add: onFinish_unauthenticated [OF u] logAuditEvent_def query_def
        recording_pool_def Let_def)
next
  let ?r = "sample_request ''POST'' ''/api/members'' None"
  have "req_user ?r = None \<and> containsPHI ?r \<and> shouldAuditRequest ?r
          \<and> filter isAuditWrite (fst (snd (onFinish recording_pool remoteAddress ?r ([], [])))) \<noteq> []"
    by (simp add: sample_request_def containsPHI_def shouldAuditRequest_def onFinish_def
        logAuditEvent_def logPHIAccess_def query_def recording_pool_def Let_def)
  then show "\<exists>r. req_user r = None \<and> containsPHI r \<and> shouldAuditRequest r
          \<and> filter isAuditWrite (fst (snd (onFinish recording_pool remoteAddress r ([], [])))) \<noteq> []"
    by blast
qed

theorem phi_access_requires_principal_witness:
  "req_user (sample_request ''POST'' ''/api/members'' None) = None
   \<and> containsPHI (sample_request ''POST'' ''/api/members'' None)
   \<and> shouldAuditRequest (sample_request ''POST'' ''/api/members'' None)
   \<and> logPHIAccess recording_pool (sample_request ''POST'' ''/api/members'' None) ([], [])
       = (Inr (), ([], []))
   \<and> filter isPhiWrite (fst (snd (onFinish recording_pool None
          (sample_request ''POST'' ''/api/members'' None) ([], [])))) = []"
proof -
  let ?r = "sample_request ''POST'' ''/api/members'' None"
  have u: "req_user ?r = None" by (simp add: sample_request_def)
  have c: "containsPHI ?r \<and> shouldAuditRequest ?r"
    by (simp add: sample_request_def containsPHI_def shouldAuditRequest_def)
  from phi_access_requires_principal [of ?r recording_pool "([], [])" None "[]" "[]"] u
  have "logPHIAccess recording_pool ?r ([], []) = (Inr (), ([], []))
        \<and> filter isPhiWrite (fst (snd (onFinish recording_pool None ?r ([], []))))
            = filter isPhiWrite []"
    by blast
  with u c show ?thesis by simp
qed

section \<open>Last-activity update\<close>

text \<open>
  C5, as the code has it. For a request with a verifiable token that names an existing
  active identity, the middleware passes control on when the last-activity update
  succeeds; when the update raises, the catch around the whole resolution answers the
  request with 403 and the message that the token is invalid.
\<close>

theorem authenticateToken_last_activity:
  assumes "bearerToken req = Some token" and "token \<noteq> []"
    and "verify token = Inr uid"
    and "select_user (fst st) uid = Inr (row # rest)"
  shows "(fst (pool (fst st) (UpdateLastActivity (row_user_id row))) = Inr ()
            \<longrightarrow> fst (authenticateToken verify select_user pool req st) = Next)
       \<and> (fst (pool (fst st) (UpdateLastActivity (row_user_id row))) = Inl e
            \<longrightarrow> fst (authenticateToken verify select_user pool req st)
                = Respond 403 ''Invalid token'')"
proof (cases "pool (fst st) (UpdateLastActivity (row_user_id row))")
  case (Pair r s')
  then show ?thesis
    using assms
    by (cases r) (simp_all add: authenticateToken_def query_def logger_error_def Let_def)
qed

theorem authenticateToken_last_activity_witness:
  "bearerToken bearer_request = Some ''abc.def.ghi''
   \<and> fst (authenticateToken (\<lambda>t. Inr ''u-17'') (\<lambda>s uid. Inr [sample_row])
          recording_pool bearer_request ([], [])) = Next
   \<and> fst (authenticateToken (\<lambda>t. Inr ''u-17'') (\<lambda>s uid. Inr [sample_row])
          (failing_pool ''deadlock detected'') bearer_request ([], []))
       = Respond 403 ''Invalid token''"
proof -
  have b: "bearerToken bearer_request = Some ''abc.def.ghi''"
    by (simp add: bearerToken_def bearer_request_def sample_request_def lookup_def at_index_def)
  have n: "''abc.def.ghi'' \<noteq> []" by simp
  have v: "(\<lambda>t::string. (Inr ''u-17'' :: string + string)) ''abc.def.ghi'' = Inr ''u-17''" by simp
  have s: "(\<lambda>(s::db_write list) (uid::string). (Inr [sample_row] :: string + user_row list))
             (fst (([], []) :: db_write list world)) ''u-17'' = Inr (sample_row # [])"
    by simp
  show ?thesis
    using b authenticateToken_last_activity [OF b n v s, where pool = recording_pool and e = "''''"]
      authenticateToken_last_activity [OF b n v s,
        where pool = "failing_pool ''deadlock detected''" and e = "''deadlock detected''"]
    by (simp add: recording_pool_def failing_pool_def)
qed

text \<open>
  A valid token, a known active identity, and a store that rejects the update: the request
  is answered with a 403.
\<close>

theorem authenticateToken_last_activity_counterexample:
  "bearerToken bearer_request = Some ''abc.def.ghi''
   \<and> fst (authenticateToken (\<lambda>t. Inr ''u-17'') (\<lambda>s uid. Inr [sample_row])
          (failing_pool ''deadlock detected'') bearer_request ((), []))
       = Respond 403 ''Invalid token''"
  by (simp add: authenticateToken_def bearerToken_def bearer_request_def sample_request_def
      lookup_def at_index_def failing_pool_def query_def logger_error_def sample_row_def Let_def)

section \<open>Sanitizers\<close>

lemma truthy_redacted: "truthy redacted"
  by (simp add: redacted_def)

lemma redactField_settled_fix: "settled kvs f \<Longrightarrow> redactField kvs f = kvs"
  by (auto simp: settled_def redactField_def AList.update_triv)

lemma redactField_settles: "settled (redactField kvs f) f"
  by (auto simp: settled_def redactField_def lookup_def AList.update_conv' truthy_redacted)

lemma redactField_keeps_settled: "settled kvs f \<Longrightarrow> settled (redactField kvs g) f"
  by (auto simp: settled_def redactField_def lookup_def AList.update_conv' truthy_redacted
      split: option.splits if_splits)

lemma foldl_redactField_settled:
  "\<forall>f \<in> set done. settled kvs f \<Longrightarrow> \<forall>f \<in> set done \<union> set fs. settled (foldl redactField kvs fs) f"
proof (induction fs arbitrary: kvs "done")
  case Nil
  then show ?case by simp
next
  case (Cons g fs)
  have "\<forall>f \<in> set (g # done). settled (redactField kvs g) f"
    using Cons.prems by (auto intro: redactField_settles redactField_keeps_settled)
  from Cons.IH [OF this] show ?case by simp
qed

lemma foldl_redactField_fix:
  "\<forall>f \<in> set fs. settled kvs f \<Longrightarrow> foldl redactField kvs fs = kvs"
  by (induction fs) (auto simp: redactField_settled_fix)

lemma foldl_redactField_idem:
  "foldl redactField (foldl redactField kvs fs) fs = foldl redactField kvs fs"
proof -
  have "\<forall>f \<in> set [] \<union> set fs. settled (foldl redactField kvs fs) f"
    by (rule foldl_redactField_settled) simp
  then show ?thesis by (simp add: foldl_redactField_fix)
qed

lemma sanitizeRequestData_idem: "sanitizeRequestData (sanitizeRequestData d) = sanitizeRequestData d"
  by (simp add: sanitizeRequestData_def foldl_redactField_idem)

lemma sanitizeHeaders_idem: "sanitizeHeaders (sanitizeHeaders h) = sanitizeHeaders h"
  by (simp add: sanitizeHeaders_def foldl_redactField_idem)

lemma update_distinct_map:
  "distinct (map fst kvs) \<Longrightarrow> map_of kvs k = Some v0 \<Longrightarrow>
   AList.update k v kvs = map (\<lambda>kv. if fst kv = k then (fst kv, v) else kv) kvs"
proof (induction kvs)
  case Nil
  then show ?case by simp
next
  case (Cons p ps)
  show ?case
  proof (cases "fst p = k")
    case True
    then have "k \<notin> fst ` set ps" using Cons.prems(1) by auto
    then have "map (\<lambda>kv. if fst kv = k then (fst kv, v) else kv) ps = ps"
      by (induction ps) auto
    with True show ?thesis by (cases p) simp
  next
    case False
    with Cons show ?thesis by (cases p) auto
  qed
qed

lemma redactField_distinct_map:
  assumes "distinct (map fst kvs)"
  shows "redactField kvs f = map (redactEntry [f]) kvs"
proof (cases "truthy (lookup kvs f)")
  case True
  then obtain v0 where m: "map_of kvs f = Some v0" and t: "truthy v0"
    by (auto simp: lookup_def split: option.splits)
  have "\<And>kv. kv \<in> set kvs \<Longrightarrow> fst kv = f \<Longrightarrow> snd kv = v0"
    using assms m by (metis map_of_is_SomeI option.inject prod.collapse)
  then have "map (\<lambda>kv. if fst kv = f then (fst kv, redacted) else kv) kvs = map (redactEntry [f]) kvs"
    using t by (auto simp: redactEntry_def)
  with True update_distinct_map [OF assms m, of redacted] show ?thesis
    by (simp add: redactField_def)
next
  case False
  have "\<And>kv. kv \<in> set kvs \<Longrightarrow> fst kv = f \<Longrightarrow> \<not> truthy (snd kv)"
  proof -
    fix kv assume "kv \<in> set kvs" "fst kv = f"
    then have "map_of kvs f = Some (snd kv)"
      using assms by (metis map_of_is_SomeI prod.collapse)
    with False show "\<not> truthy (snd kv)" by (simp add: lookup_def)
  qed
  then have "\<And>kv. kv \<in> set kvs \<Longrightarrow> redactEntry [f] kv = kv"
    by (auto simp: redactEntry_def)
  then have "map (redactEntry [f]) kvs = kvs"
    by (rule map_idI)
  with False show ?thesis by (simp add: redactField_def)
qed

lemma redactEntry_keys: "map fst (map (redactEntry ns) kvs) = map fst kvs"
  by (induction kvs) (simp_all add: redactEntry_def)

lemma redactEntry_compose:
  "redactEntry fs (redactEntry [f] kv) = redactEntry (f # fs) kv"
  by (auto simp: redactEntry_def truthy_redacted)

lemma foldl_redactField_distinct_map:
  "distinct (map fst kvs) \<Longrightarrow> foldl redactField kvs fs = map (redactEntry fs) kvs"
proof (induction fs arbitrary: kvs)
  case Nil
  show ?case by (simp add: redactEntry_def)
next
  case (Cons f fs)
  have k: "distinct (map fst (map (redactEntry [f]) kvs))"
    unfolding redactEntry_keys by (rule Cons.prems)
  have "foldl redactField kvs (f # fs) = foldl redactField (map (redactEntry [f]) kvs) fs"
    by (simp add: redactField_distinct_map [OF Cons.prems])
  also have "\<dots> = map (redactEntry fs) (map (redactEntry [f]) kvs)"
    by (rule Cons.IH [OF k])
  also have "\<dots> = map (redactEntry (f # fs)) kvs"
    by (induction kvs) (simp_all add: redactEntry_compose)
  finally show ?case .
qed

lemma redactEntry_unfold:
  "redactEntry names = (\<lambda>(k, v). if k \<in> set names \<and> truthy v then (k, redacted) else (k, v))"
  by (rule ext) (simp add: redactEntry_def split: prod.splits)

text \<open>
  C8, as the code has it. Sanitizing twice gives what sanitizing once gives, for the
  request data and for the headers. A falsy value is returned as it is. Otherwise the
  result is an object with the same keys in the same order, where each top-level property
  whose key is one of the sensitive names and whose value is truthy holds the redaction
  marker, and every other property (a sensitive key with a falsy value, a nested object,
  any other key) is unchanged.
\<close>

theorem sanitize_idempotent_and_shape:
  "sanitizeRequestData (sanitizeRequestData d) = sanitizeRequestData d
   \<and> sanitizeHeaders (sanitizeHeaders h) = sanitizeHeaders h
   \<and> (\<not> truthy d \<longrightarrow> sanitizeRequestData d = d)
   \<and> (truthy d \<and> distinct (map fst (spread d)) \<longrightarrow>
        sanitizeRequestData d =
          JObj (map (\<lambda>(k, v). if k \<in> set sensitiveFields \<and> truthy v then (k, redacted) else (k, v))
                  (spread d)))
   \<and> (distinct (map fst h) \<longrightarrow>
        sanitizeHeaders h =
          map (\<lambda>(k, v). if k \<in> set sensitiveHeaders \<and> truthy v then (k, redacted) else (k, v)) h)"
proof (intro conjI impI)
  show "sanitizeRequestData (sanitizeRequestData d) = sanitizeRequestData d"
    by (rule sanitizeRequestData_idem)
  show "sanitizeHeaders (sanitizeHeaders h) = sanitizeHeaders h"
    by (rule sanitizeHeaders_idem)
  show "sanitizeRequestData d = d" if "\<not> truthy d"
    using that by (simp add: sanitizeRequestData_def)
  show "sanitizeRequestData d =
          JObj (map (\<lambda>(k, v). if k \<in> set sensitiveFields \<and> truthy v then (k, redacted) else (k, v))
                  (spread d))"
    if "truthy d \<and> distinct (map fst (spread d))"
    using that
    by (simp add: sanitizeRequestData_def foldl_redactField_distinct_map redactEntry_unfold)
  show "sanitizeHeaders h =
          map (\<lambda>(k, v). if k \<in> set sensitiveHeaders \<and> truthy v then (k, redacted) else (k, v)) h"
    if "distinct (map fst h)"
    using that
    by (simp add: sanitizeHeaders_def foldl_redactField_distinct_map redactEntry_unfold)
qed

theorem sanitize_idempotent_and_shape_witness:
  "\<not> truthy JNull \<and> sanitizeRequestData JNull = JNull
   \<and> truthy (JObj [(''username'', JStr ''ann''), (''password'', JStr ''hunter2''), (''ssn'', JStr ''078-05-1120'')])
   \<and> distinct (map fst (spread (JObj [(''username'', JStr ''ann''), (''password'', JStr ''hunter2''),
                                       (''ssn'', JStr ''078-05-1120'')])))
   \<and> sanitizeRequestData (JObj [(''username'', JStr ''ann''), (''password'', JStr ''hunter2''),
                                 (''ssn'', JStr ''078-05-1120'')])
       = JObj [(''username'', JStr ''ann''), (''password'', JStr ''[REDACTED]''),
               (''ssn'', JStr ''[REDACTED]'')]
   \<and> distinct (map fst [(''authorization'', JStr ''Bearer abc.def.ghi''), (''accept'', JStr ''*/*'')])
   \<and> sanitizeHeaders [(''authorization'', JStr ''Bearer abc.def.ghi''), (''accept'', JStr ''*/*'')]
       = [(''authorization'', JStr ''[REDACTED]''), (''accept'', JStr ''*/*'')]"
  using sanitize_idempotent_and_shape [of JNull "[]"]
    sanitize_idempotent_and_shape
      [of "JObj [(''username'', JStr ''ann''), (''password'', JStr ''hunter2''),
                 (''ssn'', JStr ''078-05-1120'')]"
          "[(''authorization'', JStr ''Bearer abc.def.ghi''), (''accept'', JStr ''*/*'')]"]
  by (simp add: sensitiveFields_def sensitiveHeaders_def redacted_def)

text \<open>
  An empty password and a password inside a nested object: both are sensitive fields of the
  request data, and both come out of the sanitizer as they went in.
\<close>

theorem sanitize_redacts_every_sensitive_field_counterexample:
  "sanitizeRequestData (JObj [(''username'', JStr ''ann''), (''password'', JStr [])])
     = JObj [(''username'', JStr ''ann''), (''password'', JStr [])]
   \<and> getProp (sanitizeRequestData (JObj [(''username'', JStr ''ann''), (''password'', JStr [])]))
       ''password'' \<noteq> redacted
   \<and> sanitizeRequestData (JObj [(''user'', JObj [(''password'', JStr ''hunter2'')])])
     = JObj [(''user'', JObj [(''password'', JStr ''hunter2'')])]"
  by (simp add: sanitizeRequestData_def sensitiveFields_def redactField_def lookup_def redacted_def)

end
